theory Spec2Isabelle
  imports Main "HOL-Library.Word"
begin

section \<open>Constants of the transport library\<close>

text \<open>
  The two failure values of libsrt (\<^verbatim>\<open>srt.h\<close>): \<^verbatim>\<open>SRT_ERROR\<close> is the error return of every
  call, \<^verbatim>\<open>SRT_INVALID_SOCK\<close> the socket handle that names no socket. Both are \<open>-1\<close>; the
  sources compare against either name and against the literal \<^verbatim>\<open>-1\<close>.
\<close>

definition SRT_ERROR :: int where
  "SRT_ERROR = -1"

definition SRT_INVALID_SOCK :: int where
  "SRT_INVALID_SOCK = -1"

section \<open>Base source: the property setter\<close>

text \<open>
  \<^verbatim>\<open>GstSRTBaseSrc\<close> with the fields the setter writes. A \<^verbatim>\<open>GstUri\<close> is kept as its scheme,
  host and port; capabilities are opaque.
\<close>

record GstUri =
  uri_scheme :: "string option"
  uri_host :: "string option"
  uri_port :: nat

record GstSRTBaseSrc =
  uri :: "GstUri option"
  caps :: "nat option"
  latency :: int
  passphrase :: "string option"
  key_length :: int

text \<open>
  A call of \<^verbatim>\<open>set_property\<close>: the property id together with the content of the
  \<^verbatim>\<open>GValue\<close>. For \<^verbatim>\<open>PROP_URI\<close> the value is the string as
  \<^verbatim>\<open>gst_uri_from_string\<close> parses it.
\<close>

datatype property =
    PROP_URI GstUri
  | PROP_CAPS "nat option"
  | PROP_LATENCY int
  | PROP_PASSPHRASE "string option"
  | PROP_KEY_LENGTH int

datatype diagnostic =
    CriticalCheckFailed
  | WarnInvalidPropertyId

definition SRT_URI_SCHEME :: string where
  "SRT_URI_SCHEME = ''srt''"

text \<open>
  \<^verbatim>\<open>gst_srt_base_src_uri_set_uri\<close>: a scheme other than \<^verbatim>\<open>srt\<close> returns \<^verbatim>\<open>FALSE\<close> and
  leaves the stored URI alone (the setter passes no place for the error).
\<close>

definition gst_srt_base_src_uri_set_uri :: "GstSRTBaseSrc \<Rightarrow> GstUri \<Rightarrow> bool \<times> GstSRTBaseSrc" where
  "gst_srt_base_src_uri_set_uri self parsed_uri =
     (if uri_scheme parsed_uri \<noteq> Some SRT_URI_SCHEME then (False, self)
      else (True, self\<lparr>uri := Some parsed_uri\<rparr>))"

text \<open>
  \<^verbatim>\<open>gst_srt_base_src_set_property\<close>. \<^verbatim>\<open>g_return_if_fail\<close> logs a critical message and
  returns from the setter when its condition is false (GLib's checks are compiled in).
  \<^verbatim>\<open>PROP_LATENCY\<close> has no case in the switch and takes the default branch.
\<close>

fun gst_srt_base_src_set_property :: "GstSRTBaseSrc \<Rightarrow> property \<Rightarrow> GstSRTBaseSrc \<times> diagnostic list" where
  "gst_srt_base_src_set_property self (PROP_URI u) =
     (snd (gst_srt_base_src_uri_set_uri self u), [])"
| "gst_srt_base_src_set_property self (PROP_CAPS c) = (self\<lparr>caps := c\<rparr>, [])"
| "gst_srt_base_src_set_property self (PROP_PASSPHRASE p) = (self\<lparr>passphrase := p\<rparr>, [])"
| "gst_srt_base_src_set_property self (PROP_KEY_LENGTH v) =
     (if \<not> (v = 16 \<or> v = 24 \<or> v = 32) then (self, [CriticalCheckFailed])
      else (self\<lparr>key_length := v\<rparr>, []))"
| "gst_srt_base_src_set_property self (PROP_LATENCY v) = (self, [WarnInvalidPropertyId])"


section \<open>Client source: the fill operation\<close>

datatype GstFlowReturn = GST_FLOW_OK | GST_FLOW_EOS | GST_FLOW_ERROR

text \<open>
  \<^verbatim>\<open>GstSRTClientSrcPrivate\<close>. \<^verbatim>\<open>last_msg_num\<close> is a \<^verbatim>\<open>gint\<close> and the transport's
  \<^verbatim>\<open>msgno\<close> an \<^verbatim>\<open>int32_t\<close>: 32-bit words, read as two's complement by \<open>sint\<close>.
\<close>

record GstSRTClientSrcPrivate =
  src_sock :: int
  src_poll_id :: int
  src_poll_timeout :: int
  last_msg_num :: "32 word"
  src_rendezvous :: bool
  src_bind_address :: "string option"
  src_bind_port :: nat

text \<open>
  The output buffer: its bytes, its presentation time stamp and the source time of the
  \<^verbatim>\<open>GstSrtMeta\<close> attached to it, if any.
\<close>

record GstBuffer =
  buf_data :: "8 word list"
  buf_pts :: "64 word option"
  buf_src_time :: "64 word option"

text \<open>
  What one call of fill gets from outside: whether \<^verbatim>\<open>gst_buffer_map\<close> succeeds, the
  return value of \<^verbatim>\<open>srt_recvmsg2\<close> with the bytes it wrote and the \<^verbatim>\<open>SRT_MSGCTRL\<close> it
  filled in, and the clock and base time of the element.
\<close>

record fill_env =
  map_ok :: bool
  recv_len :: int
  recv_data :: "8 word list"
  ctrl_msgno :: "32 word"
  ctrl_srctime :: "64 word"
  clock_time :: "64 word"
  base_time :: "64 word"

datatype fill_diag =
    ElementErrorRead
  | WeirdReceivedSize int
  | Dropped int "32 word" "32 word"

text \<open>The receive call writes into the mapped memory; the size of the memory stays.\<close>

definition write_bytes :: "8 word list \<Rightarrow> 8 word list \<Rightarrow> 8 word list" where
  "write_bytes dst bytes = take (length dst) bytes @ drop (length bytes) dst"

text \<open>
  \<^verbatim>\<open>gst_srt_client_src_fill\<close>. The subtraction \<^verbatim>\<open>ctrl.msgno - priv->last_msg_num\<close> is
  on 32-bit words and compared as a signed value.
\<close>

definition gst_srt_client_src_fill ::
    "GstSRTClientSrcPrivate \<Rightarrow> GstBuffer \<Rightarrow> fill_env
      \<Rightarrow> GstFlowReturn \<times> GstSRTClientSrcPrivate \<times> GstBuffer \<times> fill_diag list" where
  "gst_srt_client_src_fill priv outbuf env =
     (if \<not> map_ok env then (GST_FLOW_ERROR, priv, outbuf, [ElementErrorRead])
      else
        let outbuf1 = outbuf\<lparr>buf_data := write_bytes (buf_data outbuf) (recv_data env)\<rparr> in
        if recv_len env = SRT_ERROR then (GST_FLOW_ERROR, priv, outbuf1, [ElementErrorRead])
        else if recv_len env = 0 then (GST_FLOW_EOS, priv, outbuf1, [])
        else
          let weird = (if recv_len env \<noteq> 1316 then [WeirdReceivedSize (recv_len env)] else []);
              dropped =
                (if last_msg_num priv \<noteq> 0 \<and> 1 < sint (ctrl_msgno env - last_msg_num priv)
                 then [Dropped (sint (ctrl_msgno env - last_msg_num priv - 1))
                         (last_msg_num priv) (ctrl_msgno env)]
                 else []);
              priv1 = priv\<lparr>last_msg_num := ctrl_msgno env\<rparr>;
              outbuf2 = outbuf1\<lparr>buf_pts := Some (clock_time env - base_time env)\<rparr>;
              outbuf3 = outbuf2\<lparr>buf_data := take (nat (recv_len env)) (buf_data outbuf2)\<rparr>;
              outbuf4 = outbuf3\<lparr>buf_src_time := Some (ctrl_srctime env)\<rparr>
          in (GST_FLOW_OK, priv1, outbuf4, weird @ dropped))"

text \<open>
  Successive fills on one element: the private state is threaded through, the
  diagnostics of each fill are collected in order. \<^verbatim>\<open>gst_srt_client_src_start\<close> sets
  \<^verbatim>\<open>last_msg_num\<close> to 0 before the first fill.
\<close>

fun fills :: "GstSRTClientSrcPrivate \<Rightarrow> (GstBuffer \<times> fill_env) list
      \<Rightarrow> GstSRTClientSrcPrivate \<times> fill_diag list list" where
  "fills priv [] = (priv, [])"
| "fills priv ((outbuf, env) # rest) =
     (case gst_srt_client_src_fill priv outbuf env of
        (ret, priv1, outbuf1, diags) \<Rightarrow>
          (case fills priv1 rest of (priv2, dss) \<Rightarrow> (priv2, diags # dss)))"

fun is_dropped :: "fill_diag \<Rightarrow> bool" where
  "is_dropped (Dropped n a b) = True"
| "is_dropped d = False"

definition received :: "fill_env \<Rightarrow> bool" where
  "received env = (map_ok env \<and> recv_len env \<noteq> SRT_ERROR \<and> recv_len env \<noteq> 0)"

section \<open>The connect helper\<close>

text \<open>
  Socket options and their values as \<^verbatim>\<open>srt_setsockopt\<close> receives them: an \<^verbatim>\<open>int\<close> or
  the bytes of a string.
\<close>

datatype sockopt =
    SRTO_SNDSYN
  | SRTO_TSBPDMODE
  | SRTO_LINGER
  | SRTO_SENDER
  | SRTO_PEERLATENCY
  | SRTO_RCVLATENCY
  | SRTO_RENDEZVOUS
  | SRTO_PASSPHRASE
  | SRTO_PBKEYLEN

datatype optval = IntVal int | StrVal string

datatype SRT_SOCKSTATUS =
    SRTS_INIT
  | SRTS_OPENED
  | SRTS_LISTENING
  | SRTS_CONNECTING
  | SRTS_CONNECTED
  | SRTS_BROKEN
  | SRTS_CLOSING
  | SRTS_CLOSED
  | SRTS_NONEXIST

datatype epoll_flag = SRT_EPOLL_IN | SRT_EPOLL_OUT | SRT_EPOLL_ERR

text \<open>
  The calls into libsrt that the helper makes, in the order made. A creating call is
  logged with the handle it returned.
\<close>

datatype srt_call =
    EpollCreate int
  | SrtSocket int
  | SetSockOpt int sockopt optval
  | SrtBind int nat
  | SrtConnect int nat
  | GetSockState int
  | EpollAddUsock int int "epoll_flag list"
  | EpollRelease int
  | SrtClose int

text \<open>The error the helper posts or logs before it jumps to \<^verbatim>\<open>failed\<close>.\<close>

datatype connect_error =
    UnspecifiedNullHost
  | FailedToParseHost
  | FailedToCreatePollId
  | CannotResolveAddress
  | FailedToCreateSocket
  | FailedToParseBindAddress
  | CannotResolveBindAddress
  | CannotBind
  | FailedToConnect
  | SocketNotConnected

text \<open>
  The arguments of \<^verbatim>\<open>gst_srt_client_connect_full\<close>; \<open>arg_poll_id\<close> is the value
  \<^verbatim>\<open>*poll_id\<close> holds on entry. A \<^verbatim>\<open>NULL\<close> string is \<open>None\<close>.
\<close>

record connect_args =
  arg_is_sender :: bool
  arg_host :: "string option"
  arg_port :: nat
  arg_rendezvous :: bool
  arg_bind_address :: "string option"
  arg_bind_port :: nat
  arg_latency :: int
  arg_poll_id :: int
  arg_passphrase :: "string option"
  arg_key_length :: int

text \<open>
  What the library calls answer during one run of the helper. A socket address is an
  opaque number; \<open>env_parse_address\<close> is \<^verbatim>\<open>g_inet_socket_address_new_from_string\<close>
  (\<open>None\<close> for \<^verbatim>\<open>NULL\<close>) and \<open>env_to_native\<close> is \<^verbatim>\<open>g_socket_address_to_native\<close>.
\<close>

record connect_env =
  env_parse_address :: "string \<Rightarrow> nat \<Rightarrow> nat option"
  env_to_native :: "nat \<Rightarrow> bool"
  env_epoll_create :: int
  env_socket :: int
  env_bind :: int
  env_connect :: int
  env_sockstate :: SRT_SOCKSTATUS

record connect_result =
  ret :: int
  poll_id_out :: int
  socket_address_out :: "nat option"
  calls :: "srt_call list"
  error :: "connect_error option"

text \<open>
  Lines 99 to 127 of the helper: the option assignments made on the new socket, in
  order.
\<close>

definition socket_options :: "bool \<Rightarrow> int \<Rightarrow> bool \<Rightarrow> string option \<Rightarrow> int \<Rightarrow> (sockopt \<times> optval) list" where
  "socket_options is_sender lat rendezvous pass key_len =
     [(SRTO_TSBPDMODE, IntVal 1),
      (SRTO_LINGER, IntVal 0),
      (SRTO_SENDER, IntVal (if is_sender then 1 else 0)),
      (if is_sender then (SRTO_PEERLATENCY, IntVal lat) else (SRTO_RCVLATENCY, IntVal lat)),
      (SRTO_RENDEZVOUS, IntVal (if rendezvous then 1 else 0))]
     @ (case pass of
          None \<Rightarrow> []
        | Some p \<Rightarrow>
            if p \<noteq> [] then [(SRTO_PASSPHRASE, StrVal p), (SRTO_PBKEYLEN, IntVal key_len)]
            else [])"

text \<open>
  The label \<^verbatim>\<open>failed\<close>: release the multiplexer unless \<^verbatim>\<open>*poll_id\<close> is \<^verbatim>\<open>SRT_ERROR\<close>,
  close the socket unless it is \<^verbatim>\<open>SRT_INVALID_SOCK\<close>, clear the address, return
  \<^verbatim>\<open>SRT_INVALID_SOCK\<close>.
\<close>

definition failed :: "int \<Rightarrow> int \<Rightarrow> srt_call list \<Rightarrow> connect_error \<Rightarrow> connect_result" where
  "failed poll sock t e =
     (let t1 = (if poll \<noteq> SRT_ERROR then t @ [EpollRelease poll] else t);
          poll1 = (if poll \<noteq> SRT_ERROR then SRT_ERROR else poll);
          t2 = (if sock \<noteq> SRT_INVALID_SOCK then t1 @ [SrtClose sock] else t1)
      in \<lparr>ret = SRT_INVALID_SOCK, poll_id_out = poll1, socket_address_out = None,
          calls = t2, error = Some e\<rparr>)"

text \<open>From \<^verbatim>\<open>srt_connect\<close> to the return of the socket.\<close>

definition connect_and_register ::
    "connect_env \<Rightarrow> connect_args \<Rightarrow> nat \<Rightarrow> int \<Rightarrow> int \<Rightarrow> srt_call list \<Rightarrow> connect_result" where
  "connect_and_register env a sa poll sock t =
     (let t1 = t @ [SrtConnect sock sa] in
      if env_connect env = SRT_ERROR then failed poll sock t1 FailedToConnect
      else
        let t2 = t1 @ [GetSockState sock] in
        if env_sockstate env \<noteq> SRTS_CONNECTED then failed poll sock t2 SocketNotConnected
        else
          let events = (if arg_is_sender a then [SRT_EPOLL_IN, SRT_EPOLL_OUT, SRT_EPOLL_ERR]
                        else [SRT_EPOLL_IN, SRT_EPOLL_ERR])
          in \<lparr>ret = sock, poll_id_out = poll, socket_address_out = Some sa,
              calls = t2 @ [EpollAddUsock poll sock events], error = None\<rparr>)"

text \<open>The optional bind, then the connect.\<close>

definition bind_and_connect ::
    "connect_env \<Rightarrow> connect_args \<Rightarrow> nat \<Rightarrow> int \<Rightarrow> int \<Rightarrow> srt_call list \<Rightarrow> connect_result" where
  "bind_and_connect env a sa poll sock t =
     (if arg_bind_address a \<noteq> None \<or> arg_bind_port a \<noteq> 0 \<or> arg_rendezvous a then
        let bind_address = (case arg_bind_address a of None \<Rightarrow> ''0.0.0.0'' | Some b \<Rightarrow> b);
            bind_port = (if arg_rendezvous a then arg_port a else arg_bind_port a)
        in case env_parse_address env bind_address bind_port of
             None \<Rightarrow> failed poll sock t FailedToParseBindAddress
           | Some bsa \<Rightarrow>
               if \<not> env_to_native env bsa then failed poll sock t CannotResolveBindAddress
               else if env_bind env = SRT_ERROR
                 then failed poll sock (t @ [SrtBind sock bsa]) CannotBind
               else connect_and_register env a sa poll sock (t @ [SrtBind sock bsa])
      else connect_and_register env a sa poll sock t)"

text \<open>\<^verbatim>\<open>gst_srt_client_connect_full\<close>.\<close>

definition gst_srt_client_connect_full :: "connect_env \<Rightarrow> connect_args \<Rightarrow> connect_result" where
  "gst_srt_client_connect_full env a =
     (case arg_host a of
        None \<Rightarrow> failed (arg_poll_id a) SRT_INVALID_SOCK [] UnspecifiedNullHost
      | Some h \<Rightarrow>
          (case env_parse_address env h (arg_port a) of
             None \<Rightarrow> failed (arg_poll_id a) SRT_INVALID_SOCK [] FailedToParseHost
           | Some sa \<Rightarrow>
               let poll = env_epoll_create env;
                   t1 = [EpollCreate poll]
               in if poll = -1 then failed poll SRT_INVALID_SOCK t1 FailedToCreatePollId
                  else if \<not> env_to_native env sa
                    then failed poll SRT_INVALID_SOCK t1 CannotResolveAddress
                  else
                    let sock = env_socket env;
                        t2 = t1 @ [SrtSocket sock]
                    in if sock = SRT_ERROR then failed poll sock t2 FailedToCreateSocket
                       else
                         let t3 = t2 @ map (\<lambda>(opt, v). SetSockOpt sock opt v)
                                    (socket_options (arg_is_sender a) (arg_latency a)
                                       (arg_rendezvous a) (arg_passphrase a) (arg_key_length a))
                         in bind_and_connect env a sa poll sock t3))"

text \<open>Reading a log of calls: the handles created, released and closed, and the options set.\<close>

fun created_polls :: "srt_call list \<Rightarrow> int list" where
  "created_polls [] = []"
| "created_polls (EpollCreate p # t) = (if p \<noteq> -1 then p # created_polls t else created_polls t)"
| "created_polls (c # t) = created_polls t"

fun created_socks :: "srt_call list \<Rightarrow> int list" where
  "created_socks [] = []"
| "created_socks (SrtSocket s # t) = (if s \<noteq> -1 then s # created_socks t else created_socks t)"
| "created_socks (c # t) = created_socks t"

fun released_polls :: "srt_call list \<Rightarrow> int list" where
  "released_polls [] = []"
| "released_polls (EpollRelease p # t) = p # released_polls t"
| "released_polls (c # t) = released_polls t"

fun closed_socks :: "srt_call list \<Rightarrow> int list" where
  "closed_socks [] = []"
| "closed_socks (SrtClose s # t) = s # closed_socks t"
| "closed_socks (c # t) = closed_socks t"

fun options_set :: "srt_call list \<Rightarrow> (sockopt \<times> optval) list" where
  "options_set [] = []"
| "options_set (SetSockOpt s opt v # t) = (opt, v) # options_set t"
| "options_set (c # t) = options_set t"

section \<open>Server sink: the client registry\<close>

definition SRT_SEND_BUFFER_SIZE :: int where
  "SRT_SEND_BUFFER_SIZE = 1024 * 1024"

text \<open>
  The source's comment on the next constant: ``How many times a send fails in a row
  before we disconnect a client''.
\<close>

definition MAX_SEND_FAILS :: int where
  "MAX_SEND_FAILS = 10"

text \<open>\<^verbatim>\<open>SRTClient\<close>; a \<^verbatim>\<open>NULL\<close> address is \<open>None\<close>.\<close>

record SRTClient =
  sock :: int
  sockaddr :: "nat option"
  num_send_fails :: int

text \<open>
  What the sink does to the outside, in the order done: the two signals (with the client
  record they are emitted for, its socket and its address), the calls into the transport
  library, the error posted on the element, and the release of a client record.
\<close>

datatype action =
    ClientAdded nat int "nat option"
  | ClientRemoved nat int "nat option"
  | Close int
  | Sendmsg int
  | SendHeaders int
  | Accept
  | PostError
  | EpollRemoveUsock int int
  | EpollReleasePoll int
  | Free nat

text \<open>
  \<^verbatim>\<open>GstSRTServerSinkPrivate\<close>. Client records live in \<open>heap\<close>, addressed by the number
  \<^verbatim>\<open>srt_client_new\<close> gave them; \<open>clients\<close> (the \<^verbatim>\<open>GList\<close>) and \<open>pending_clients\<close> (the
  \<^verbatim>\<open>GAsyncQueue\<close>, next to pop first) hold such addresses. \<open>next_client\<close> is the address the
  next allocation gets: every record has an address of its own, so that a record can be
  followed through the log. \<open>trace\<close> is the log of actions.
\<close>

record server_sink =
  cancelled :: bool
  priv_sock :: int
  poll_id :: int
  poll_timeout :: int
  clients :: "nat list"
  pending_clients :: "nat list"
  heap :: "nat \<Rightarrow> SRTClient"
  next_client :: nat
  trace :: "action list"

definition do_action :: "action \<Rightarrow> server_sink \<Rightarrow> server_sink" where
  "do_action a s = s\<lparr>trace := trace s @ [a]\<rparr>"

text \<open>\<^verbatim>\<open>srt_client_new\<close>: a zeroed record with an invalid socket, at a new address.\<close>

definition srt_client_new :: "server_sink \<Rightarrow> nat \<times> server_sink" where
  "srt_client_new s =
     (next_client s,
      s\<lparr>heap := (heap s)(next_client s :=
            \<lparr>sock = SRT_INVALID_SOCK, sockaddr = None, num_send_fails = 0\<rparr>),
        next_client := Suc (next_client s)\<rparr>)"

text \<open>\<^verbatim>\<open>srt_client_free\<close>: close the socket if there is one, release the record.\<close>

definition srt_client_free :: "nat \<Rightarrow> server_sink \<Rightarrow> server_sink" where
  "srt_client_free client s =
     (let s1 = (if sock (heap s client) \<noteq> SRT_INVALID_SOCK
                then do_action (Close (sock (heap s client))) s else s)
      in do_action (Free client) s1)"

text \<open>\<^verbatim>\<open>srt_emit_client_removed\<close>, and the same \<^verbatim>\<open>g_signal_emit\<close> where it is written out.\<close>

definition srt_emit_client_removed :: "nat \<Rightarrow> server_sink \<Rightarrow> server_sink" where
  "srt_emit_client_removed client s =
     do_action (ClientRemoved client (sock (heap s client)) (sockaddr (heap s client))) s"

subsection \<open>The accept thread\<close>

text \<open>
  \<^verbatim>\<open>srt_epoll_wait\<close> returns something else than \<open>-1\<close>, or \<open>-1\<close> with the last error
  \<^verbatim>\<open>SRT_ETIMEOUT\<close>, or \<open>-1\<close> with another last error.
\<close>

datatype wait_result = WaitReady | WaitTimeout | WaitFailed

text \<open>
  One turn of the loop of \<^verbatim>\<open>thread_func\<close> as the outside shapes it. The flag
  \<^verbatim>\<open>priv->cancelled\<close> is written by other threads (unlock, unlock-stop, stop): a write
  may land before the loop tests the flag and another while the thread waits. Then the
  result of the wait, and the socket (\<^verbatim>\<open>SRT_INVALID_SOCK\<close> on failure) and peer address
  that \<^verbatim>\<open>srt_accept\<close> would return.
\<close>

record iteration =
  flag_write_before_test :: "bool option"
  wait :: wait_result
  flag_write_during_wait :: "bool option"
  accept_sock :: int
  accept_addr :: "nat option"

definition write_flag :: "bool option \<Rightarrow> server_sink \<Rightarrow> server_sink" where
  "write_flag w s = (case w of None \<Rightarrow> s | Some b \<Rightarrow> s\<lparr>cancelled := b\<rparr>)"

text \<open>The body of the loop from \<^verbatim>\<open>srt_client_new\<close> on.\<close>

definition accept_client :: "iteration \<Rightarrow> server_sink \<Rightarrow> server_sink" where
  "accept_client i s =
     (case srt_client_new s of
        (client, s1) \<Rightarrow>
          let s2 = do_action Accept s1;
              s3 = s2\<lparr>heap := (heap s2)(client := (heap s2 client)\<lparr>sock := accept_sock i\<rparr>)\<rparr>
          in if sock (heap s3 client) = SRT_INVALID_SOCK then srt_client_free client s3
             else
               let s4 = s3\<lparr>heap := (heap s3)(client := (heap s3 client)
                              \<lparr>sockaddr := accept_addr i\<rparr>)\<rparr>;
                   s5 = do_action (ClientAdded client (sock (heap s4 client))
                                     (sockaddr (heap s4 client))) s4
               in s5\<lparr>pending_clients := pending_clients s5 @ [client]\<rparr>)"

text \<open>The body of the loop: the wait, its two early \<^verbatim>\<open>continue\<close>s, the accept.\<close>

definition thread_iteration :: "iteration \<Rightarrow> server_sink \<Rightarrow> server_sink" where
  "thread_iteration i s =
     (let s1 = write_flag (flag_write_during_wait i) s in
      if wait i \<noteq> WaitReady then
        if wait i \<noteq> WaitTimeout then do_action PostError s1
        else if wait i = WaitTimeout \<and> cancelled s1 then s1
        else accept_client i s1
      else accept_client i s1)"

datatype thread_status = Exited | StillRunning

text \<open>
  \<^verbatim>\<open>thread_func\<close> along a script of turns. The loop has no exit but its test; when the
  script ends before the test has seen the flag, the thread is still running.
\<close>

fun thread_func :: "iteration list \<Rightarrow> server_sink \<Rightarrow> thread_status \<times> server_sink" where
  "thread_func [] s = (StillRunning, s)"
| "thread_func (i # rest) s =
     (let s0 = write_flag (flag_write_before_test i) s in
      if \<not> cancelled s0 then thread_func rest (thread_iteration i s0)
      else (Exited, s0))"

subsection \<open>Sending one buffer to every client\<close>

text \<open>
  What the calls of one \<^verbatim>\<open>send_buffer\<close> answer, per socket: the bytes not yet
  acknowledged (\<^verbatim>\<open>SRTO_SNDDATA\<close>), the return value of \<^verbatim>\<open>srt_sendmsg2\<close> for the buffer, and
  the result of \<^verbatim>\<open>gst_srt_base_sink_send_headers\<close> for a client on that socket. That
  function is not among the sources at hand (the base sink here has no headers yet), so
  its result is an input. The sum in \<^verbatim>\<open>can_client_recv\<close> is taken over the integers: the
  transport reports no count near the top of the \<^verbatim>\<open>int\<close> range.
\<close>

record send_env =
  snddata :: "int \<Rightarrow> int"
  sendmsg2 :: "int \<Rightarrow> int"
  send_headers :: "int \<Rightarrow> bool"

definition can_client_recv :: "send_env \<Rightarrow> int \<Rightarrow> bool" where
  "can_client_recv env socket =
     (let num_bytes_unacknowledged = snddata env socket;
          send_buffer_size = SRT_SEND_BUFFER_SIZE;
          default_msg_size = 1316
      in num_bytes_unacknowledged + default_msg_size < send_buffer_size)"

definition send_buffer_internal :: "send_env \<Rightarrow> nat \<Rightarrow> server_sink \<Rightarrow> bool \<times> server_sink" where
  "send_buffer_internal env client s =
     (let s1 = do_action (Sendmsg (sock (heap s client))) s in
      if sendmsg2 env (sock (heap s client)) = SRT_ERROR then (False, s1) else (True, s1))"

text \<open>
  The three statements that take a client out of the list: \<^verbatim>\<open>g_list_remove\<close> (the first
  node holding the address), the removed signal, \<^verbatim>\<open>srt_client_free\<close>.
\<close>

definition remove_client :: "nat \<Rightarrow> server_sink \<Rightarrow> server_sink" where
  "remove_client client s =
     srt_client_free client
       (srt_emit_client_removed client (s\<lparr>clients := remove1 client (clients s)\<rparr>))"

definition send_or_remove :: "send_env \<Rightarrow> nat \<Rightarrow> server_sink \<Rightarrow> server_sink" where
  "send_or_remove env client s =
     (case send_buffer_internal env client s of
        (ok, s1) \<Rightarrow> if \<not> ok then remove_client client s1 else s1)"

text \<open>
  The body of the first loop of \<^verbatim>\<open>gst_srt_server_sink_send_buffer\<close> for one client:
  the backpressure check with its counter, then the send.
\<close>

definition live_client :: "send_env \<Rightarrow> nat \<Rightarrow> server_sink \<Rightarrow> server_sink" where
  "live_client env client s =
     (if \<not> can_client_recv env (sock (heap s client)) then
        let s1 = s\<lparr>heap := (heap s)(client := (heap s client)
                      \<lparr>num_send_fails := num_send_fails (heap s client) + 1\<rparr>)\<rparr>
        in if num_send_fails (heap s1 client) \<ge> MAX_SEND_FAILS
           then remove_client client s1
           else send_or_remove env client s1
      else send_or_remove env client s)"

text \<open>
  The loop walks the nodes of the list as they were on entry: the next node is read
  before the current client can be removed.
\<close>

fun live_clients_loop :: "send_env \<Rightarrow> nat list \<Rightarrow> server_sink \<Rightarrow> server_sink" where
  "live_clients_loop env [] s = s"
| "live_clients_loop env (client # rest) s = live_clients_loop env rest (live_client env client s)"

text \<open>\<^verbatim>\<open>g_async_queue_try_pop\<close>.\<close>

definition try_pop :: "server_sink \<Rightarrow> (nat \<times> server_sink) option" where
  "try_pop s =
     (case pending_clients s of
        [] \<Rightarrow> None
      | client # rest \<Rightarrow> Some (client, s\<lparr>pending_clients := rest\<rparr>))"

text \<open>
  The body of the second loop for one popped client: headers, then the buffer, then the
  prepend; at \<^verbatim>\<open>err\<close> the removed signal and \<^verbatim>\<open>srt_client_free\<close>.
\<close>

definition new_client :: "send_env \<Rightarrow> nat \<Rightarrow> server_sink \<Rightarrow> server_sink" where
  "new_client env client s =
     (let s1 = do_action (SendHeaders (sock (heap s client))) s in
      if \<not> send_headers env (sock (heap s client))
        then srt_client_free client (srt_emit_client_removed client s1)
      else
        case send_buffer_internal env client s1 of
          (ok, s2) \<Rightarrow>
            if \<not> ok then srt_client_free client (srt_emit_client_removed client s2)
            else s2\<lparr>clients := client # clients s2\<rparr>)"

function pending_clients_loop :: "send_env \<Rightarrow> server_sink \<Rightarrow> server_sink" where
  "pending_clients_loop env s =
     (case try_pop s of
        None \<Rightarrow> s
      | Some (client, s1) \<Rightarrow> pending_clients_loop env (new_client env client s1))"
  by pat_completeness auto
termination
  by (relation "measure (\<lambda>(env, s). length (pending_clients s))")
    (auto simp: try_pop_def new_client_def send_buffer_internal_def srt_client_free_def
      srt_emit_client_removed_def do_action_def Let_def split: list.splits)

text \<open>\<^verbatim>\<open>gst_srt_server_sink_send_buffer\<close>.\<close>

definition gst_srt_server_sink_send_buffer :: "send_env \<Rightarrow> server_sink \<Rightarrow> bool \<times> server_sink" where
  "gst_srt_server_sink_send_buffer env s =
     (True, pending_clients_loop env (live_clients_loop env (clients s) s))"

subsection \<open>Stop\<close>

text \<open>The pop loop of stop.\<close>

function drop_pending :: "server_sink \<Rightarrow> server_sink" where
  "drop_pending s =
     (case try_pop s of
        None \<Rightarrow> s
      | Some (client, s1) \<Rightarrow>
          drop_pending (srt_client_free client (srt_emit_client_removed client s1)))"
  by pat_completeness auto
termination
  by (relation "measure (\<lambda>s. length (pending_clients s))")
    (auto simp: try_pop_def srt_client_free_def srt_emit_client_removed_def do_action_def
      Let_def split: list.splits)

text \<open>
  \<^verbatim>\<open>gst_srt_server_sink_stop\<close>. It joins the accept thread before it touches the
  registry, so the turns of the thread all come before the state it is applied to.
  \<^verbatim>\<open>g_list_foreach\<close> emits the removed signal for every client of the list,
  \<^verbatim>\<open>g_list_free_full\<close> frees every client; the field \<^verbatim>\<open>priv->clients\<close> itself is not
  written.
\<close>

definition gst_srt_server_sink_stop :: "server_sink \<Rightarrow> server_sink" where
  "gst_srt_server_sink_stop s =
     (let s1 = s\<lparr>cancelled := True\<rparr>;
          s2 = do_action (EpollRemoveUsock (poll_id s1) (priv_sock s1)) s1;
          s3 = do_action (EpollReleasePoll (poll_id s2)) s2;
          s4 = do_action (Close (priv_sock s3)) s3;
          s5 = fold srt_emit_client_removed (clients s4) s4;
          s6 = fold srt_client_free (clients s5) s5
      in drop_pending s6)"

text \<open>
  \<^verbatim>\<open>gst_srt_server_sink_init\<close> on the zeroed private structure, with no client record
  allocated yet.
\<close>

definition gst_srt_server_sink_init :: "(nat \<Rightarrow> SRTClient) \<Rightarrow> server_sink" where
  "gst_srt_server_sink_init mem =
     \<lparr>cancelled = False, priv_sock = 0, poll_id = 0, poll_timeout = -1,
      clients = [], pending_clients = [], heap = mem, next_client = 0, trace = []\<rparr>"

text \<open>
  What a successful \<^verbatim>\<open>gst_srt_server_sink_start\<close> leaves in the private structure: the
  listening socket and the multiplexer. It then starts the accept thread.
\<close>

definition sink_started :: "int \<Rightarrow> int \<Rightarrow> server_sink \<Rightarrow> server_sink" where
  "sink_started listen_sock poll s = s\<lparr>priv_sock := listen_sock, poll_id := poll\<rparr>"

text \<open>
  The states of a running sink: from init and start, by turns of the accept thread and
  by calls of \<^verbatim>\<open>send_buffer\<close>, in any order.
\<close>

inductive reachable :: "server_sink \<Rightarrow> bool" where
  init: "reachable (sink_started listen_sock poll (gst_srt_server_sink_init mem))"
| accept: "reachable s \<Longrightarrow> reachable (thread_iteration i s)"
| send: "reachable s \<Longrightarrow> reachable (snd (gst_srt_server_sink_send_buffer env s))"

text \<open>
  The states a running sink can get to from a given one, by further turns of the accept
  thread and further calls of \<^verbatim>\<open>send_buffer\<close>.
\<close>

inductive steps :: "server_sink \<Rightarrow> server_sink \<Rightarrow> bool" where
  here: "steps s s"
| accept: "steps s s1 \<Longrightarrow> steps s (thread_iteration i s1)"
| send: "steps s s1 \<Longrightarrow> steps s (snd (gst_srt_server_sink_send_buffer env s1))"

text \<open>Counting the signals emitted for one client record.\<close>

fun added_count :: "nat \<Rightarrow> action list \<Rightarrow> nat" where
  "added_count c [] = 0"
| "added_count c (ClientAdded c' so a # t) = (if c' = c then Suc (added_count c t) else added_count c t)"
| "added_count c (x # t) = added_count c t"

fun removed_count :: "nat \<Rightarrow> action list \<Rightarrow> nat" where
  "removed_count c [] = 0"
| "removed_count c (ClientRemoved c' so a # t) = (if c' = c then Suc (removed_count c t) else removed_count c t)"
| "removed_count c (x # t) = removed_count c t"

text \<open>
  The invariant of the registry: the list and the queue hold different records, each
  allocated, with a socket, and announced by one added signal; no record was announced
  twice; a record has its removed signal, once, exactly when it was announced and is in
  neither collection any more.
\<close>

definition registry_inv :: "server_sink \<Rightarrow> bool" where
  "registry_inv s =
     (distinct (clients s @ pending_clients s)
      \<and> (\<forall>c \<in> set (clients s @ pending_clients s).
            c < next_client s \<and> sock (heap s c) \<noteq> SRT_INVALID_SOCK
            \<and> added_count c (trace s) = 1)
      \<and> (\<forall>c. added_count c (trace s) \<le> 1
            \<and> (next_client s \<le> c \<longrightarrow> added_count c (trace s) = 0)
            \<and> removed_count c (trace s) =
                (if added_count c (trace s) = 1 \<and> c \<notin> set (clients s @ pending_clients s)
                 then 1 else 0)))"

subsection \<open>What one call does to one client\<close>

text \<open>
  The outcome of a call of \<^verbatim>\<open>send_buffer\<close> for a single client record, read off the
  record and the answers of the transport: whether the backpressure counter reaches the
  threshold, whether the send fails, and the actions that follow. Both passes over the
  clients are proved to do exactly this for every client.
\<close>

definition backpressure_evicted :: "send_env \<Rightarrow> SRTClient \<Rightarrow> bool" where
  "backpressure_evicted env c =
     (\<not> can_client_recv env (sock c) \<and> num_send_fails c + 1 \<ge> MAX_SEND_FAILS)"

definition send_fails :: "send_env \<Rightarrow> SRTClient \<Rightarrow> bool" where
  "send_fails env c = (sendmsg2 env (sock c) = SRT_ERROR)"

definition evicted :: "send_env \<Rightarrow> SRTClient \<Rightarrow> bool" where
  "evicted env c = (backpressure_evicted env c \<or> send_fails env c)"

definition promoted :: "send_env \<Rightarrow> SRTClient \<Rightarrow> bool" where
  "promoted env c = (send_headers env (sock c) \<and> \<not> send_fails env c)"

definition free_actions :: "nat \<Rightarrow> SRTClient \<Rightarrow> action list" where
  "free_actions client c =
     (if sock c \<noteq> SRT_INVALID_SOCK then [Close (sock c)] else []) @ [Free client]"

definition removal_actions :: "nat \<Rightarrow> SRTClient \<Rightarrow> action list" where
  "removal_actions client c = ClientRemoved client (sock c) (sockaddr c) # free_actions client c"

definition live_client_actions :: "send_env \<Rightarrow> nat \<Rightarrow> SRTClient \<Rightarrow> action list" where
  "live_client_actions env client c =
     (if backpressure_evicted env c then removal_actions client c
      else Sendmsg (sock c) # (if send_fails env c then removal_actions client c else []))"

definition new_client_actions :: "send_env \<Rightarrow> nat \<Rightarrow> SRTClient \<Rightarrow> action list" where
  "new_client_actions env client c =
     SendHeaders (sock c)
       # (if \<not> send_headers env (sock c) then removal_actions client c
          else Sendmsg (sock c) # (if send_fails env c then removal_actions client c else []))"

text \<open>Successive calls of \<^verbatim>\<open>send_buffer\<close>, one per outbound buffer.\<close>

fun send_buffers :: "send_env list \<Rightarrow> server_sink \<Rightarrow> server_sink" where
  "send_buffers [] s = s"
| "send_buffers (env # envs) s = send_buffers envs (snd (gst_srt_server_sink_send_buffer env s))"

subsection \<open>A small session\<close>

text \<open>
  Concrete inputs: zeroed memory, a started sink with listening socket 3 and multiplexer
  1, a turn of the accept thread that accepts a given socket, and the answers of a
  transport whose send buffers are empty (\<open>flowing\<close>) or full (\<open>congested\<close>), or whose
  sends fail on one socket.
\<close>

definition zeroed :: "nat \<Rightarrow> SRTClient" where
  "zeroed = (\<lambda>c. \<lparr>sock = 0, sockaddr = None, num_send_fails = 0\<rparr>)"

definition started :: server_sink where
  "started = sink_started 3 1 (gst_srt_server_sink_init zeroed)"

definition accepting :: "int \<Rightarrow> nat \<Rightarrow> iteration" where
  "accepting so a =
     \<lparr>flag_write_before_test = None, wait = WaitReady, flag_write_during_wait = None,
      accept_sock = so, accept_addr = Some a\<rparr>"

definition flowing :: send_env where
  "flowing = \<lparr>snddata = (\<lambda>so. 0), sendmsg2 = (\<lambda>so. 1316), send_headers = (\<lambda>so. True)\<rparr>"

definition congested :: send_env where
  "congested = \<lparr>snddata = (\<lambda>so. 1048576), sendmsg2 = (\<lambda>so. 1316), send_headers = (\<lambda>so. True)\<rparr>"

definition failing_on :: "int \<Rightarrow> send_env" where
  "failing_on bad =
     \<lparr>snddata = (\<lambda>so. 0), sendmsg2 = (\<lambda>so. if so = bad then -1 else 1316),
      send_headers = (\<lambda>so. True)\<rparr>"

definition headers_failing_on :: "int \<Rightarrow> send_env" where
  "headers_failing_on bad =
     \<lparr>snddata = (\<lambda>so. 0), sendmsg2 = (\<lambda>so. 1316), send_headers = (\<lambda>so. so \<noteq> bad)\<rparr>"

text \<open>One client, on socket 7, accepted and promoted by a first buffer.\<close>

definition one_live :: server_sink where
  "one_live = snd (gst_srt_server_sink_send_buffer flowing (thread_iteration (accepting 7 1) started))"

text \<open>Two live clients, on sockets 7 and 8, and a third one, on socket 9, still pending.\<close>

definition two_live_one_pending :: server_sink where
  "two_live_one_pending =
     thread_iteration (accepting 9 3)
       (snd (gst_srt_server_sink_send_buffer flowing
          (thread_iteration (accepting 8 2) (thread_iteration (accepting 7 1) started))))"

section \<open>Verified properties\<close>

subsection \<open>Server sink\<close>

lemma added_count_append [simp]: "added_count c (t @ u) = added_count c t + added_count c u"
  by (induction c t rule: added_count.induct) auto

lemma removed_count_append [simp]: "removed_count c (t @ u) = removed_count c t + removed_count c u"
  by (induction c t rule: removed_count.induct) auto

lemma free_actions_counts [simp]:
  "added_count c (free_actions p r) = 0"
  "removed_count c (free_actions p r) = 0"
  by (simp_all add: free_actions_def)

lemma removal_actions_counts [simp]:
  "added_count c (removal_actions p r) = 0"
  "removed_count c (removal_actions p r) = (if p = c then 1 else 0)"
  by (simp_all add: removal_actions_def)

lemma remove_client_eq:
  "remove_client p s =
     s\<lparr>clients := remove1 p (clients s), trace := trace s @ removal_actions p (heap s p)\<rparr>"
  by (simp add: remove_client_def srt_client_free_def srt_emit_client_removed_def do_action_def
      removal_actions_def free_actions_def Let_def)

lemma send_or_remove_eq:
  "send_or_remove env p s =
     (if send_fails env (heap s p)
      then s\<lparr>clients := remove1 p (clients s),
             trace := trace s @ Sendmsg (sock (heap s p)) # removal_actions p (heap s p)\<rparr>
      else s\<lparr>trace := trace s @ [Sendmsg (sock (heap s p))]\<rparr>)"
  by (simp add: send_or_remove_def send_buffer_internal_def remove_client_eq do_action_def
      send_fails_def Let_def)

lemma live_client_eq:
  "live_client env p s =
     s\<lparr>heap := (heap s)(p := if \<not> can_client_recv env (sock (heap s p))
                             then (heap s p)\<lparr>num_send_fails := num_send_fails (heap s p) + 1\<rparr>
                             else heap s p),
       clients := (if evicted env (heap s p) then remove1 p (clients s) else clients s),
       trace := trace s @ live_client_actions env p (heap s p)\<rparr>"
  by (auto simp: live_client_def remove_client_eq send_or_remove_eq Let_def evicted_def
      backpressure_evicted_def send_fails_def live_client_actions_def removal_actions_def free_actions_def)


declare pending_clients_loop.simps [simp del] drop_pending.simps [simp del]

lemma live_clients_loop_other_fields:
  "pending_clients (live_clients_loop env ps s) = pending_clients s"
  "next_client (live_clients_loop env ps s) = next_client s"
  "cancelled (live_clients_loop env ps s) = cancelled s"
  by (induction ps arbitrary: s) (simp_all add: live_client_eq)

lemma live_clients_loop_heap:
  "distinct ps \<Longrightarrow>
     heap (live_clients_loop env ps s) c =
       (if c \<in> set ps \<and> \<not> can_client_recv env (sock (heap s c))
        then (heap s c)\<lparr>num_send_fails := num_send_fails (heap s c) + 1\<rparr>
        else heap s c)"
  by (induction ps arbitrary: s) (auto simp: live_client_eq)

lemma live_clients_loop_trace:
  "distinct ps \<Longrightarrow>
     trace (live_clients_loop env ps s) =
       trace s @ concat (map (\<lambda>p. live_client_actions env p (heap s p)) ps)"
proof (induction ps arbitrary: s)
  case Nil
  show ?case by simp
next
  case (Cons p ps)
  let ?s = "live_client env p s"
  have h: "\<And>c. c \<in> set ps \<Longrightarrow> heap ?s c = heap s c"
    using Cons.prems by (auto simp: live_client_eq)
  have m: "map (\<lambda>q. live_client_actions env q (heap ?s q)) ps
      = map (\<lambda>q. live_client_actions env q (heap s q)) ps"
    by (intro map_cong) (simp_all add: h)
  have t: "trace ?s = trace s @ live_client_actions env p (heap s p)"
    by (simp add: live_client_eq)
  have "trace (live_clients_loop env (p # ps) s)
      = trace ?s @ concat (map (\<lambda>q. live_client_actions env q (heap ?s q)) ps)"
    using Cons.IH [of ?s] Cons.prems by simp
  then show ?case by (simp only: m t) simp
qed

lemma live_clients_loop_clients:
  "distinct ps \<Longrightarrow> distinct (clients s) \<Longrightarrow>
     clients (live_clients_loop env ps s) =
       filter (\<lambda>c. \<not> (c \<in> set ps \<and> evicted env (heap s c))) (clients s)"
proof (induction ps arbitrary: s)
  case Nil
  show ?case by simp
next
  case (Cons p ps)
  let ?s = "live_client env p s"
  have d: "distinct (clients ?s)"
    using Cons.prems by (simp add: live_client_eq)
  have h: "\<And>c. c \<in> set ps \<Longrightarrow> heap ?s c = heap s c"
    using Cons.prems by (auto simp: live_client_eq)
  have "clients (live_clients_loop env (p # ps) s)
      = filter (\<lambda>c. \<not> (c \<in> set ps \<and> evicted env (heap ?s c))) (clients ?s)"
    using Cons.IH [OF _ d] Cons.prems by simp
  also have "\<dots> = filter (\<lambda>c. \<not> (c \<in> set ps \<and> evicted env (heap s c))) (clients ?s)"
    by (intro filter_cong) (auto simp: h)
  also have "\<dots> = filter (\<lambda>c. \<not> (c \<in> set (p # ps) \<and> evicted env (heap s c))) (clients s)"
    using Cons.prems
    by (auto simp: live_client_eq distinct_remove1_removeAll removeAll_filter_not_eq
        intro!: filter_cong)
  finally show ?case .
qed

lemma new_client_eq:
  "new_client env c s =
     s\<lparr>clients := (if promoted env (heap s c) then c # clients s else clients s),
       trace := trace s @ new_client_actions env c (heap s c)\<rparr>"
  by (simp add: new_client_def send_buffer_internal_def srt_client_free_def
      srt_emit_client_removed_def do_action_def promoted_def send_fails_def
      new_client_actions_def removal_actions_def free_actions_def Let_def)

lemma pending_clients_loop_Nil:
  "pending_clients s = [] \<Longrightarrow> pending_clients_loop env s = s"
  by (subst pending_clients_loop.simps) (simp add: try_pop_def)

lemma pending_clients_loop_Cons:
  "pending_clients s = c # q \<Longrightarrow>
     pending_clients_loop env s = pending_clients_loop env (new_client env c (s\<lparr>pending_clients := q\<rparr>))"
  by (subst pending_clients_loop.simps) (simp add: try_pop_def)

lemma pending_clients_loop_eq:
  "pending_clients_loop env s =
     s\<lparr>pending_clients := [],
       clients := rev (filter (\<lambda>c. promoted env (heap s c)) (pending_clients s)) @ clients s,
       trace := trace s @ concat (map (\<lambda>c. new_client_actions env c (heap s c)) (pending_clients s))\<rparr>"
proof (induction "pending_clients s" arbitrary: s)
  case Nil
  then show ?case by (simp add: pending_clients_loop_Nil)
next
  case (Cons c q)
  from Cons(2) have "pending_clients_loop env s
      = pending_clients_loop env (new_client env c (s\<lparr>pending_clients := q\<rparr>))"
    by (simp add: pending_clients_loop_Cons)
  also have "\<dots> = s\<lparr>pending_clients := [],
       clients := rev (filter (\<lambda>c. promoted env (heap s c)) (pending_clients s)) @ clients s,
       trace := trace s @ concat (map (\<lambda>c. new_client_actions env c (heap s c)) (pending_clients s))\<rparr>"
    using Cons(2) [symmetric]
    by (subst Cons(1)) (simp_all add: new_client_eq)
  finally show ?case .
qed


lemma send_buffer_fields:
  "fst (gst_srt_server_sink_send_buffer env s) = True"
  "pending_clients (snd (gst_srt_server_sink_send_buffer env s)) = []"
  "next_client (snd (gst_srt_server_sink_send_buffer env s)) = next_client s"
  "cancelled (snd (gst_srt_server_sink_send_buffer env s)) = cancelled s"
  by (simp_all add: gst_srt_server_sink_send_buffer_def pending_clients_loop_eq
      live_clients_loop_other_fields)

lemma send_buffer_heap:
  "distinct (clients s) \<Longrightarrow>
     heap (snd (gst_srt_server_sink_send_buffer env s)) c =
       (if c \<in> set (clients s) \<and> \<not> can_client_recv env (sock (heap s c))
        then (heap s c)\<lparr>num_send_fails := num_send_fails (heap s c) + 1\<rparr>
        else heap s c)"
  by (simp add: gst_srt_server_sink_send_buffer_def pending_clients_loop_eq
      live_clients_loop_heap)

lemma send_buffer_clients:
  assumes "distinct (clients s)" "set (clients s) \<inter> set (pending_clients s) = {}"
  shows "clients (snd (gst_srt_server_sink_send_buffer env s)) =
       rev (filter (\<lambda>c. promoted env (heap s c)) (pending_clients s))
         @ filter (\<lambda>c. \<not> evicted env (heap s c)) (clients s)"
proof -
  have f: "filter (\<lambda>c. promoted env (heap (live_clients_loop env (clients s) s) c)) (pending_clients s)
      = filter (\<lambda>c. promoted env (heap s c)) (pending_clients s)"
    using assms by (intro filter_cong) (auto simp: live_clients_loop_heap)
  have g: "filter (\<lambda>c. \<not> (c \<in> set (clients s) \<and> evicted env (heap s c))) (clients s)
      = filter (\<lambda>c. \<not> evicted env (heap s c)) (clients s)"
    by (intro filter_cong) auto
  have "clients (snd (gst_srt_server_sink_send_buffer env s)) =
       rev (filter (\<lambda>c. promoted env (heap (live_clients_loop env (clients s) s) c)) (pending_clients s))
         @ filter (\<lambda>c. \<not> (c \<in> set (clients s) \<and> evicted env (heap s c))) (clients s)"
    using assms(1)
    by (simp add: gst_srt_server_sink_send_buffer_def pending_clients_loop_eq
        live_clients_loop_other_fields live_clients_loop_clients)
  then show ?thesis by (simp only: f g)
qed

lemma send_buffer_trace:
  assumes "distinct (clients s)" "set (clients s) \<inter> set (pending_clients s) = {}"
  shows "trace (snd (gst_srt_server_sink_send_buffer env s)) =
       trace s @ concat (map (\<lambda>c. live_client_actions env c (heap s c)) (clients s))
         @ concat (map (\<lambda>c. new_client_actions env c (heap s c)) (pending_clients s))"
proof -
  have m: "map (\<lambda>c. new_client_actions env c (heap (live_clients_loop env (clients s) s) c))
          (pending_clients s)
      = map (\<lambda>c. new_client_actions env c (heap s c)) (pending_clients s)"
    using assms by (intro map_cong) (auto simp: live_clients_loop_heap)
  have "trace (snd (gst_srt_server_sink_send_buffer env s)) =
       trace s @ concat (map (\<lambda>c. live_client_actions env c (heap s c)) (clients s))
         @ concat (map (\<lambda>c. new_client_actions env c
                     (heap (live_clients_loop env (clients s) s) c)) (pending_clients s))"
    using assms(1)
    by (simp add: gst_srt_server_sink_send_buffer_def pending_clients_loop_eq
        live_clients_loop_other_fields live_clients_loop_trace)
  then show ?thesis by (simp only: m)
qed

lemma live_client_actions_counts [simp]:
  "added_count c (live_client_actions env p r) = 0"
  "removed_count c (live_client_actions env p r) = (if p = c \<and> evicted env r then 1 else 0)"
  by (simp_all add: live_client_actions_def evicted_def)

lemma new_client_actions_counts [simp]:
  "added_count c (new_client_actions env p r) = 0"
  "removed_count c (new_client_actions env p r) = (if p = c \<and> \<not> promoted env r then 1 else 0)"
  by (auto simp: new_client_actions_def promoted_def)

lemma added_count_concat_zero:
  "(\<And>p. p \<in> set ps \<Longrightarrow> added_count c (f p) = 0) \<Longrightarrow> added_count c (concat (map f ps)) = 0"
  by (induction ps) simp_all

lemma removed_count_concat:
  assumes "distinct ps" "\<And>p. p \<in> set ps \<Longrightarrow> removed_count c (f p) = (if p = c \<and> P p then 1 else 0)"
  shows "removed_count c (concat (map f ps)) = (if c \<in> set ps \<and> P c then 1 else 0)"
  using assms by (induction ps) auto


lemma registry_inv_init: "registry_inv (sink_started l p (gst_srt_server_sink_init m))"
  by (simp add: registry_inv_def gst_srt_server_sink_init_def sink_started_def)

lemma accept_client_eq:
  "accept_client i s =
     (if accept_sock i = SRT_INVALID_SOCK
      then s\<lparr>heap := (heap s)(next_client s :=
                  \<lparr>sock = SRT_INVALID_SOCK, sockaddr = None, num_send_fails = 0\<rparr>),
             next_client := Suc (next_client s),
             trace := trace s @ [Accept, Free (next_client s)]\<rparr>
      else s\<lparr>heap := (heap s)(next_client s :=
                  \<lparr>sock = accept_sock i, sockaddr = accept_addr i, num_send_fails = 0\<rparr>),
             next_client := Suc (next_client s),
             trace := trace s @ [Accept, ClientAdded (next_client s) (accept_sock i) (accept_addr i)],
             pending_clients := pending_clients s @ [next_client s]\<rparr>)"
  by (simp add: accept_client_def srt_client_new_def srt_client_free_def do_action_def Let_def)

lemma registry_inv_accept_client:
  assumes "registry_inv s"
  shows "registry_inv (accept_client i s)"
proof (cases "accept_sock i = SRT_INVALID_SOCK")
  case True
  with assms show ?thesis
    by (auto simp: registry_inv_def accept_client_eq ball_Un less_Suc_eq)
next
  case False
  from assms have fresh: "next_client s \<notin> set (clients s @ pending_clients s)"
    by (auto simp: registry_inv_def)
  from assms have zero: "added_count (next_client s) (trace s) = 0"
      "removed_count (next_client s) (trace s) = 0"
    by (simp_all add: registry_inv_def)
  have 1: "distinct (clients (accept_client i s) @ pending_clients (accept_client i s))"
    using assms fresh False by (auto simp: registry_inv_def accept_client_eq)
  have 2: "\<forall>c \<in> set (clients (accept_client i s) @ pending_clients (accept_client i s)).
      c < next_client (accept_client i s)
      \<and> sock (heap (accept_client i s) c) \<noteq> SRT_INVALID_SOCK
      \<and> added_count c (trace (accept_client i s)) = 1"
  proof
    fix c assume "c \<in> set (clients (accept_client i s) @ pending_clients (accept_client i s))"
    then have "c \<in> set (clients s @ pending_clients s) \<or> c = next_client s"
      using False by (auto simp: accept_client_eq)
    then show "c < next_client (accept_client i s)
        \<and> sock (heap (accept_client i s) c) \<noteq> SRT_INVALID_SOCK
        \<and> added_count c (trace (accept_client i s)) = 1"
      using assms False zero fresh
      by (auto simp: registry_inv_def accept_client_eq less_Suc_eq ball_Un)
  qed
  have 3: "\<forall>c. added_count c (trace (accept_client i s)) \<le> 1
      \<and> (next_client (accept_client i s) \<le> c \<longrightarrow> added_count c (trace (accept_client i s)) = 0)
      \<and> removed_count c (trace (accept_client i s)) =
          (if added_count c (trace (accept_client i s)) = 1
              \<and> c \<notin> set (clients (accept_client i s) @ pending_clients (accept_client i s))
           then 1 else 0)"
  proof
    fix c
    show "added_count c (trace (accept_client i s)) \<le> 1
      \<and> (next_client (accept_client i s) \<le> c \<longrightarrow> added_count c (trace (accept_client i s)) = 0)
      \<and> removed_count c (trace (accept_client i s)) =
          (if added_count c (trace (accept_client i s)) = 1
              \<and> c \<notin> set (clients (accept_client i s) @ pending_clients (accept_client i s))
           then 1 else 0)"
      using assms False zero fresh
      by (cases "c = next_client s") (auto simp: registry_inv_def accept_client_eq)
  qed
  from 1 2 3 show ?thesis
    unfolding registry_inv_def by blast
qed

lemma registry_inv_write_flag: "registry_inv (write_flag w s) = registry_inv s"
  by (simp add: registry_inv_def write_flag_def split: option.splits)

lemma registry_inv_do_action:
  "added_count c [a] = 0 \<Longrightarrow> (\<And>c. added_count c [a] = 0 \<and> removed_count c [a] = 0) \<Longrightarrow>
     registry_inv (do_action a s) = registry_inv s"
  by (simp add: registry_inv_def do_action_def)

lemma registry_inv_thread_iteration:
  "registry_inv s \<Longrightarrow> registry_inv (thread_iteration i s)"
  by (simp add: thread_iteration_def Let_def registry_inv_accept_client registry_inv_write_flag
      registry_inv_do_action)


lemma send_buffer_counts:
  assumes "distinct (clients s @ pending_clients s)"
  shows "added_count c (trace (snd (gst_srt_server_sink_send_buffer env s))) = added_count c (trace s)"
    and "removed_count c (trace (snd (gst_srt_server_sink_send_buffer env s))) =
      removed_count c (trace s)
        + (if c \<in> set (clients s) \<and> evicted env (heap s c) then 1 else 0)
        + (if c \<in> set (pending_clients s) \<and> \<not> promoted env (heap s c) then 1 else 0)"
proof -
  from assms have d: "distinct (clients s)" "distinct (pending_clients s)"
      "set (clients s) \<inter> set (pending_clients s) = {}"
    by auto
  have a1: "added_count c (concat (map (\<lambda>c. live_client_actions env c (heap s c)) (clients s))) = 0"
    by (rule added_count_concat_zero) simp
  have a2: "added_count c (concat (map (\<lambda>c. new_client_actions env c (heap s c)) (pending_clients s))) = 0"
    by (rule added_count_concat_zero) simp
  have r1: "removed_count c (concat (map (\<lambda>c. live_client_actions env c (heap s c)) (clients s)))
      = (if c \<in> set (clients s) \<and> evicted env (heap s c) then 1 else 0)"
    by (rule removed_count_concat [OF d(1)]) simp
  have r2: "removed_count c (concat (map (\<lambda>c. new_client_actions env c (heap s c)) (pending_clients s)))
      = (if c \<in> set (pending_clients s) \<and> \<not> promoted env (heap s c) then 1 else 0)"
    by (rule removed_count_concat [OF d(2)]) simp
  show "added_count c (trace (snd (gst_srt_server_sink_send_buffer env s))) = added_count c (trace s)"
    by (simp add: send_buffer_trace [OF d(1) d(3)] a1 a2)
  show "removed_count c (trace (snd (gst_srt_server_sink_send_buffer env s))) =
      removed_count c (trace s)
        + (if c \<in> set (clients s) \<and> evicted env (heap s c) then 1 else 0)
        + (if c \<in> set (pending_clients s) \<and> \<not> promoted env (heap s c) then 1 else 0)"
    by (simp only: send_buffer_trace [OF d(1) d(3)] removed_count_append r1 r2)
qed

lemma registry_inv_send_buffer:
  assumes "registry_inv s"
  shows "registry_inv (snd (gst_srt_server_sink_send_buffer env s))"
proof -
  let ?s = "snd (gst_srt_server_sink_send_buffer env s)"
  from assms have dd: "distinct (clients s @ pending_clients s)"
    by (simp add: registry_inv_def)
  then have d: "distinct (clients s)" "distinct (pending_clients s)"
      "set (clients s) \<inter> set (pending_clients s) = {}"
    by auto
  note cl = send_buffer_clients [OF d(1) d(3), of env]
  note cnt = send_buffer_counts [OF dd, of _ env]
  have mem: "set (clients ?s @ pending_clients ?s) \<subseteq> set (clients s @ pending_clients s)"
    by (auto simp: cl send_buffer_fields)
  have 1: "distinct (clients ?s @ pending_clients ?s)"
    using d by (auto simp: cl send_buffer_fields)
  have 2: "\<forall>c \<in> set (clients ?s @ pending_clients ?s).
      c < next_client ?s \<and> sock (heap ?s c) \<noteq> SRT_INVALID_SOCK \<and> added_count c (trace ?s) = 1"
  proof
    fix c assume "c \<in> set (clients ?s @ pending_clients ?s)"
    with mem have "c \<in> set (clients s @ pending_clients s)" by blast
    with assms have "c < next_client s \<and> sock (heap s c) \<noteq> SRT_INVALID_SOCK
        \<and> added_count c (trace s) = 1"
      unfolding registry_inv_def by blast
    then show "c < next_client ?s \<and> sock (heap ?s c) \<noteq> SRT_INVALID_SOCK
        \<and> added_count c (trace ?s) = 1"
      by (simp add: send_buffer_fields send_buffer_heap [OF d(1)] cnt)
  qed
  have 3: "\<forall>c. added_count c (trace ?s) \<le> 1
      \<and> (next_client ?s \<le> c \<longrightarrow> added_count c (trace ?s) = 0)
      \<and> removed_count c (trace ?s) =
          (if added_count c (trace ?s) = 1 \<and> c \<notin> set (clients ?s @ pending_clients ?s)
           then 1 else 0)"
  proof
    fix c
    from assms have i: "added_count c (trace s) \<le> 1"
        "next_client s \<le> c \<longrightarrow> added_count c (trace s) = 0"
        "removed_count c (trace s) =
          (if added_count c (trace s) = 1 \<and> c \<notin> set (clients s @ pending_clients s)
           then 1 else 0)"
      unfolding registry_inv_def by blast+
    from assms have j: "c \<in> set (clients s @ pending_clients s) \<Longrightarrow> added_count c (trace s) = 1"
      unfolding registry_inv_def by blast
    have r: "removed_count c (trace ?s) =
          (if added_count c (trace ?s) = 1 \<and> c \<notin> set (clients ?s @ pending_clients ?s)
           then 1 else 0)"
      using i(3) j d(3) by (auto simp: cnt cl send_buffer_fields)
    from i r show "added_count c (trace ?s) \<le> 1
      \<and> (next_client ?s \<le> c \<longrightarrow> added_count c (trace ?s) = 0)
      \<and> removed_count c (trace ?s) =
          (if added_count c (trace ?s) = 1 \<and> c \<notin> set (clients ?s @ pending_clients ?s)
           then 1 else 0)"
      by (simp add: cnt send_buffer_fields)
  qed
  from 1 2 3 show ?thesis
    unfolding registry_inv_def by blast
qed

lemma reachable_registry_inv: "reachable s \<Longrightarrow> registry_inv s"
  by (induction rule: reachable.induct)
    (simp_all add: registry_inv_init registry_inv_thread_iteration registry_inv_send_buffer)


lemma fold_emit_client_removed:
  "fold srt_emit_client_removed cs s =
     s\<lparr>trace := trace s @ map (\<lambda>c. ClientRemoved c (sock (heap s c)) (sockaddr (heap s c))) cs\<rparr>"
  by (induction cs arbitrary: s) (simp_all add: srt_emit_client_removed_def do_action_def)

lemma srt_client_free_eq:
  "srt_client_free c s = s\<lparr>trace := trace s @ free_actions c (heap s c)\<rparr>"
  by (simp add: srt_client_free_def do_action_def free_actions_def Let_def)

lemma fold_client_free:
  "fold srt_client_free cs s =
     s\<lparr>trace := trace s @ concat (map (\<lambda>c. free_actions c (heap s c)) cs)\<rparr>"
  by (induction cs arbitrary: s) (simp_all add: srt_client_free_eq)

lemma drop_pending_Nil: "pending_clients s = [] \<Longrightarrow> drop_pending s = s"
  by (subst drop_pending.simps) (simp add: try_pop_def)

lemma drop_pending_Cons:
  "pending_clients s = c # q \<Longrightarrow>
     drop_pending s =
       drop_pending (s\<lparr>pending_clients := q, trace := trace s @ removal_actions c (heap s c)\<rparr>)"
  by (subst drop_pending.simps)
    (simp add: try_pop_def srt_client_free_eq srt_emit_client_removed_def do_action_def
      removal_actions_def)

lemma drop_pending_eq:
  "drop_pending s =
     s\<lparr>pending_clients := [],
       trace := trace s @ concat (map (\<lambda>c. removal_actions c (heap s c)) (pending_clients s))\<rparr>"
proof (induction "pending_clients s" arbitrary: s)
  case Nil
  then show ?case by (simp add: drop_pending_Nil)
next
  case (Cons c q)
  from Cons(2) have "drop_pending s =
      drop_pending (s\<lparr>pending_clients := q, trace := trace s @ removal_actions c (heap s c)\<rparr>)"
    by (simp add: drop_pending_Cons)
  also have "\<dots> = s\<lparr>pending_clients := [],
       trace := trace s @ concat (map (\<lambda>c. removal_actions c (heap s c)) (pending_clients s))\<rparr>"
    using Cons(2) [symmetric] by (subst Cons(1)) simp_all
  finally show ?case .
qed

lemma stop_eq:
  "gst_srt_server_sink_stop s =
     s\<lparr>cancelled := True, pending_clients := [],
       trace := trace s
         @ [EpollRemoveUsock (poll_id s) (priv_sock s), EpollReleasePoll (poll_id s),
            Close (priv_sock s)]
         @ map (\<lambda>c. ClientRemoved c (sock (heap s c)) (sockaddr (heap s c))) (clients s)
         @ concat (map (\<lambda>c. free_actions c (heap s c)) (clients s))
         @ concat (map (\<lambda>c. removal_actions c (heap s c)) (pending_clients s))\<rparr>"
  by (simp add: gst_srt_server_sink_stop_def Let_def do_action_def fold_emit_client_removed
      fold_client_free drop_pending_eq)

lemma counts_map_removed:
  "added_count c (map (\<lambda>c. ClientRemoved c (f c) (g c)) cs) = 0"
  "distinct cs \<Longrightarrow>
     removed_count c (map (\<lambda>c. ClientRemoved c (f c) (g c)) cs) = (if c \<in> set cs then 1 else 0)"
  by (induction cs) auto

lemma stop_counts:
  assumes "distinct (clients s @ pending_clients s)"
  shows "added_count c (trace (gst_srt_server_sink_stop s)) = added_count c (trace s)"
    and "removed_count c (trace (gst_srt_server_sink_stop s)) =
      removed_count c (trace s) + (if c \<in> set (clients s @ pending_clients s) then 1 else 0)"
proof -
  from assms have d: "distinct (clients s)" "distinct (pending_clients s)"
      "set (clients s) \<inter> set (pending_clients s) = {}"
    by auto
  have a1: "added_count c (concat (map (\<lambda>c. free_actions c (heap s c)) (clients s))) = 0"
    by (rule added_count_concat_zero) simp
  have a2: "added_count c (concat (map (\<lambda>c. removal_actions c (heap s c)) (pending_clients s))) = 0"
    by (rule added_count_concat_zero) simp
  have r1: "removed_count c (concat (map (\<lambda>c. free_actions c (heap s c)) (clients s)))
      = (if c \<in> set (clients s) \<and> False then 1 else 0)"
    by (rule removed_count_concat [OF d(1)]) simp
  have r2: "removed_count c (concat (map (\<lambda>c. removal_actions c (heap s c)) (pending_clients s)))
      = (if c \<in> set (pending_clients s) \<and> True then 1 else 0)"
    by (rule removed_count_concat [OF d(2)]) simp
  show "added_count c (trace (gst_srt_server_sink_stop s)) = added_count c (trace s)"
    by (simp add: stop_eq a1 a2 counts_map_removed)
  show "removed_count c (trace (gst_srt_server_sink_stop s)) =
      removed_count c (trace s) + (if c \<in> set (clients s @ pending_clients s) then 1 else 0)"
    using d(3) by (auto simp: stop_eq r1 r2 counts_map_removed(2) [OF d(1)])
qed

lemma reachable_steps:
  "steps s s1 \<Longrightarrow> reachable s \<Longrightarrow> reachable s1"
  by (induction rule: steps.induct) (auto intro: reachable.intros)

lemma steps_removed_count:
  "steps s s1 \<Longrightarrow> reachable s \<Longrightarrow> removed_count c (trace s) \<le> removed_count c (trace s1)"
proof (induction rule: steps.induct)
  case (here s)
  show ?case by simp
next
  case (accept s s1 i)
  then have "removed_count c (trace s1) \<le> removed_count c (trace (thread_iteration i s1))"
    by (simp add: thread_iteration_def accept_client_eq write_flag_def do_action_def Let_def
        split: option.splits)
  with accept show ?case by simp
next
  case (send s s1 env)
  then have "reachable s1" by (simp add: reachable_steps)
  then have "distinct (clients s1 @ pending_clients s1)"
    using reachable_registry_inv registry_inv_def by blast
  then have "removed_count c (trace s1)
      \<le> removed_count c (trace (snd (gst_srt_server_sink_send_buffer env s1)))"
    by (simp add: send_buffer_counts)
  with send show ?case by simp
qed


lemmas session_defs = started_def accepting_def flowing_def congested_def failing_on_def
  headers_failing_on_def one_live_def two_live_one_pending_def zeroed_def
  gst_srt_server_sink_init_def sink_started_def

lemmas server_defs = gst_srt_server_sink_send_buffer_def can_client_recv_def send_or_remove_def
  send_buffer_internal_def remove_client_def srt_client_free_def srt_emit_client_removed_def
  do_action_def new_client_def try_pop_def live_client_def thread_iteration_def accept_client_def
  srt_client_new_def write_flag_def
  SRT_ERROR_def SRT_INVALID_SOCK_def MAX_SEND_FAILS_def SRT_SEND_BUFFER_SIZE_def Let_def

lemma one_live_eq:
  "one_live = \<lparr>cancelled = False, priv_sock = 3, poll_id = 1, poll_timeout = -1,
      clients = [0], pending_clients = [],
      heap = zeroed(0 := \<lparr>sock = 7, sockaddr = Some 1, num_send_fails = 0\<rparr>),
      next_client = 1,
      trace = [Accept, ClientAdded 0 7 (Some 1), SendHeaders 7, Sendmsg 7]\<rparr>"
  by (simp add: session_defs server_defs pending_clients_loop.simps)

lemma two_live_one_pending_eq:
  "two_live_one_pending = \<lparr>cancelled = False, priv_sock = 3, poll_id = 1, poll_timeout = -1,
      clients = [1, 0], pending_clients = [2],
      heap = zeroed(0 := \<lparr>sock = 7, sockaddr = Some 1, num_send_fails = 0\<rparr>,
                    1 := \<lparr>sock = 8, sockaddr = Some 2, num_send_fails = 0\<rparr>,
                    2 := \<lparr>sock = 9, sockaddr = Some 3, num_send_fails = 0\<rparr>),
      next_client = 3,
      trace = [Accept, ClientAdded 0 7 (Some 1), Accept, ClientAdded 1 8 (Some 2),
               SendHeaders 7, Sendmsg 7, SendHeaders 8, Sendmsg 8,
               Accept, ClientAdded 2 9 (Some 3)]\<rparr>"
  by (simp add: session_defs server_defs pending_clients_loop.simps eval_nat_numeral)

text \<open>
  C1, on the code. One client, live, with a counter of 0. Nine congested buffers in a row
  leave it live and the tenth removes it. But after nine congested buffers and one that
  passes the check, the counter still stands at 9, and a single further congested buffer
  removes the client: the counter is never reset, so it counts failed checks since the
  client was promoted, not failed checks in a row.
\<close>

theorem backpressure_counter_not_reset:
  "clients (send_buffers (replicate 9 congested) one_live) = [0]
   \<and> clients (send_buffers (replicate 10 congested) one_live) = []
   \<and> clients (send_buffers (replicate 9 congested @ [flowing]) one_live) = [0]
   \<and> num_send_fails (heap (send_buffers (replicate 9 congested @ [flowing]) one_live) 0) = 9
   \<and> clients (send_buffers (replicate 9 congested @ [flowing, congested]) one_live) = []"
  by (simp add: one_live_eq zeroed_def congested_def flowing_def server_defs
      pending_clients_loop.simps numeral_eq_Suc)


lemma reachable_started: "reachable started"
  unfolding started_def by (rule reachable.init)

lemma reachable_two_live_one_pending: "reachable two_live_one_pending"
  unfolding two_live_one_pending_def
  by (intro reachable.accept reachable.send reachable_started)

lemma reachable_one_live: "reachable one_live"
  unfolding one_live_def
  by (intro reachable.accept reachable.send reachable_started)

text \<open>
  C2. In every state a running sink can reach (by turns of the accept thread and calls of
  \<^verbatim>\<open>send_buffer\<close>, whatever the transport answers), no client record is both in the
  pending queue and in the live list, and no record is twice in either. No record is
  announced by more than one added signal or more than one removed signal, and a record has
  its removed signal exactly when it was announced and has left both collections (by
  eviction or by a failed bootstrap). After stop from any such state the queue is empty
  and every record has exactly as many removed signals as added signals: one if it was
  ever announced, none otherwise.
\<close>

theorem client_registry_invariant:
  assumes "reachable s"
  shows "set (clients s) \<inter> set (pending_clients s) = {}
     \<and> distinct (clients s) \<and> distinct (pending_clients s)
     \<and> (\<forall>c. added_count c (trace s) \<le> 1
           \<and> removed_count c (trace s) \<le> 1
           \<and> ((removed_count c (trace s) = 1)
                = (added_count c (trace s) = 1
                   \<and> c \<notin> set (clients s) \<and> c \<notin> set (pending_clients s))))
     \<and> pending_clients (gst_srt_server_sink_stop s) = []
     \<and> (\<forall>c. added_count c (trace (gst_srt_server_sink_stop s)) \<le> 1
           \<and> removed_count c (trace (gst_srt_server_sink_stop s))
               = added_count c (trace (gst_srt_server_sink_stop s)))"
proof -
  from assms have inv: "registry_inv s"
    by (rule reachable_registry_inv)
  then have dd: "distinct (clients s @ pending_clients s)"
    by (simp add: registry_inv_def)
  have a: "\<And>c. added_count c (trace s) \<le> 1"
    using inv unfolding registry_inv_def by blast
  have m: "\<And>c. c \<in> set (clients s @ pending_clients s) \<Longrightarrow> added_count c (trace s) = 1"
    using inv unfolding registry_inv_def by blast
  have r: "\<And>c. removed_count c (trace s) =
      (if added_count c (trace s) = 1 \<and> c \<notin> set (clients s @ pending_clients s) then 1 else 0)"
    using inv unfolding registry_inv_def by blast
  have 1: "set (clients s) \<inter> set (pending_clients s) = {}
     \<and> distinct (clients s) \<and> distinct (pending_clients s)"
    using dd by auto
  have 2: "\<forall>c. added_count c (trace s) \<le> 1
           \<and> removed_count c (trace s) \<le> 1
           \<and> ((removed_count c (trace s) = 1)
                = (added_count c (trace s) = 1
                   \<and> c \<notin> set (clients s) \<and> c \<notin> set (pending_clients s)))"
    using a by (simp add: r)
  have 3: "pending_clients (gst_srt_server_sink_stop s) = []"
    by (simp add: stop_eq)
  have 4: "\<forall>c. added_count c (trace (gst_srt_server_sink_stop s)) \<le> 1
           \<and> removed_count c (trace (gst_srt_server_sink_stop s))
               = added_count c (trace (gst_srt_server_sink_stop s))"
  proof
    fix c
    have "added_count c (trace s) = 0 \<or> added_count c (trace s) = 1"
      using a [of c] by linarith
    then show "added_count c (trace (gst_srt_server_sink_stop s)) \<le> 1
           \<and> removed_count c (trace (gst_srt_server_sink_stop s))
               = added_count c (trace (gst_srt_server_sink_stop s))"
      using m [of c] by (auto simp: stop_counts [OF dd] r)
  qed
  from 1 2 3 4 show ?thesis by blast
qed

theorem client_registry_invariant_witness:
  "reachable two_live_one_pending
   \<and> clients two_live_one_pending = [1, 0] \<and> pending_clients two_live_one_pending = [2]
   \<and> set (clients two_live_one_pending) \<inter> set (pending_clients two_live_one_pending) = {}
   \<and> removed_count 0 (trace (gst_srt_server_sink_stop two_live_one_pending)) = 1
   \<and> removed_count 1 (trace (gst_srt_server_sink_stop two_live_one_pending)) = 1
   \<and> removed_count 2 (trace (gst_srt_server_sink_stop two_live_one_pending)) = 1
   \<and> removed_count 3 (trace (gst_srt_server_sink_stop two_live_one_pending)) = 0"
  using client_registry_invariant [OF reachable_two_live_one_pending]
    reachable_two_live_one_pending
  by (simp add: two_live_one_pending_eq stop_eq removal_actions_def free_actions_def)


lemma concat_map_split:
  "c \<in> set xs \<Longrightarrow> \<exists>t1 t2. concat (map f xs) = t1 @ f c @ t2"
proof -
  assume "c \<in> set xs"
  then obtain ys zs where "xs = ys @ c # zs"
    by (auto simp: in_set_conv_decomp)
  then have "concat (map f xs) = concat (map f ys) @ f c @ concat (map f zs)"
    by simp
  then show ?thesis by blast
qed

lemma gone_for_good:
  assumes "reachable s" "removed_count c (trace s) = 1" "steps s s2"
  shows "c \<notin> set (clients s2) \<and> c \<notin> set (pending_clients s2)"
proof -
  from assms have "reachable s2"
    by (simp add: reachable_steps)
  then have inv: "registry_inv s2"
    by (rule reachable_registry_inv)
  from assms have "1 \<le> removed_count c (trace s2)"
    using steps_removed_count [of s s2 c] by simp
  moreover from inv have "removed_count c (trace s2) =
      (if added_count c (trace s2) = 1 \<and> c \<notin> set (clients s2 @ pending_clients s2) then 1 else 0)"
    unfolding registry_inv_def by blast
  ultimately show ?thesis
    by (auto split: if_splits)
qed

text \<open>
  C3. For a client record waiting in the pending queue of a reachable state, a call of
  \<^verbatim>\<open>send_buffer\<close> takes it out of the queue, and it is in the live list afterwards exactly
  when the header send succeeded and the send of the current buffer succeeded. Its
  actions appear together in the log, in this order: the header send; then, if that
  failed, the removed signal, the close of its socket and the release of the record;
  otherwise the send of the buffer, followed by the same three actions if that send
  failed. A record discarded this way has its one removed signal and is in neither
  collection in any later state.
\<close>

theorem pending_client_promotion:
  assumes "reachable s" and "c \<in> set (pending_clients s)"
  shows "((c \<in> set (clients (snd (gst_srt_server_sink_send_buffer env s))))
            = (send_headers env (sock (heap s c)) \<and> sendmsg2 env (sock (heap s c)) \<noteq> SRT_ERROR))
     \<and> c \<notin> set (pending_clients (snd (gst_srt_server_sink_send_buffer env s)))
     \<and> (\<exists>t1 t2. trace (snd (gst_srt_server_sink_send_buffer env s)) =
           trace s @ t1
             @ SendHeaders (sock (heap s c))
               # (if \<not> send_headers env (sock (heap s c))
                  then [ClientRemoved c (sock (heap s c)) (sockaddr (heap s c)),
                        Close (sock (heap s c)), Free c]
                  else Sendmsg (sock (heap s c))
                    # (if sendmsg2 env (sock (heap s c)) = SRT_ERROR
                       then [ClientRemoved c (sock (heap s c)) (sockaddr (heap s c)),
                             Close (sock (heap s c)), Free c]
                       else []))
             @ t2)
     \<and> (\<not> (send_headers env (sock (heap s c)) \<and> sendmsg2 env (sock (heap s c)) \<noteq> SRT_ERROR) \<longrightarrow>
           removed_count c (trace (snd (gst_srt_server_sink_send_buffer env s))) = 1
         \<and> (\<forall>s2. steps (snd (gst_srt_server_sink_send_buffer env s)) s2 \<longrightarrow>
               c \<notin> set (clients s2) \<and> c \<notin> set (pending_clients s2)))"
proof -
  let ?s = "snd (gst_srt_server_sink_send_buffer env s)"
  from assms have inv: "registry_inv s"
    by (simp add: reachable_registry_inv)
  then have dd: "distinct (clients s @ pending_clients s)"
    by (simp add: registry_inv_def)
  then have d: "distinct (clients s)" "distinct (pending_clients s)"
      "set (clients s) \<inter> set (pending_clients s) = {}"
    by auto
  from inv assms(2) have c: "sock (heap s c) \<noteq> SRT_INVALID_SOCK" "added_count c (trace s) = 1"
    unfolding registry_inv_def by auto
  from d assms(2) have nc: "c \<notin> set (clients s)"
    by auto
  from inv assms(2) nc have r0: "removed_count c (trace s) = 0"
    unfolding registry_inv_def by auto
  have 1: "(c \<in> set (clients ?s))
      = (send_headers env (sock (heap s c)) \<and> sendmsg2 env (sock (heap s c)) \<noteq> SRT_ERROR)"
    using assms(2) nc
    by (auto simp: send_buffer_clients [OF d(1) d(3)] promoted_def send_fails_def)
  have 2: "c \<notin> set (pending_clients ?s)"
    by (simp add: send_buffer_fields)
  obtain u1 u2 where u: "concat (map (\<lambda>c. new_client_actions env c (heap s c)) (pending_clients s))
      = u1 @ new_client_actions env c (heap s c) @ u2"
    using concat_map_split [OF assms(2)] by blast
  have n: "new_client_actions env c (heap s c) =
      SendHeaders (sock (heap s c))
        # (if \<not> send_headers env (sock (heap s c))
           then [ClientRemoved c (sock (heap s c)) (sockaddr (heap s c)),
                 Close (sock (heap s c)), Free c]
           else Sendmsg (sock (heap s c))
             # (if sendmsg2 env (sock (heap s c)) = SRT_ERROR
                then [ClientRemoved c (sock (heap s c)) (sockaddr (heap s c)),
                      Close (sock (heap s c)), Free c]
                else []))"
    using c(1)
    by (simp add: new_client_actions_def removal_actions_def free_actions_def send_fails_def)
  have t: "trace ?s = trace s
      @ (concat (map (\<lambda>c. live_client_actions env c (heap s c)) (clients s)) @ u1)
      @ new_client_actions env c (heap s c) @ u2"
    by (simp add: send_buffer_trace [OF d(1) d(3)] u)
  have 3: "\<exists>t1 t2. trace ?s =
           trace s @ t1
             @ SendHeaders (sock (heap s c))
               # (if \<not> send_headers env (sock (heap s c))
                  then [ClientRemoved c (sock (heap s c)) (sockaddr (heap s c)),
                        Close (sock (heap s c)), Free c]
                  else Sendmsg (sock (heap s c))
                    # (if sendmsg2 env (sock (heap s c)) = SRT_ERROR
                       then [ClientRemoved c (sock (heap s c)) (sockaddr (heap s c)),
                             Close (sock (heap s c)), Free c]
                       else []))
             @ t2"
    by (intro exI [of _ "concat (map (\<lambda>c. live_client_actions env c (heap s c)) (clients s)) @ u1"]
        exI [of _ u2]) (simp add: t n)
  have 4: "\<not> (send_headers env (sock (heap s c)) \<and> sendmsg2 env (sock (heap s c)) \<noteq> SRT_ERROR) \<longrightarrow>
           removed_count c (trace ?s) = 1
         \<and> (\<forall>s2. steps ?s s2 \<longrightarrow> c \<notin> set (clients s2) \<and> c \<notin> set (pending_clients s2))"
  proof
    assume f: "\<not> (send_headers env (sock (heap s c)) \<and> sendmsg2 env (sock (heap s c)) \<noteq> SRT_ERROR)"
    then have rc: "removed_count c (trace ?s) = 1"
      using assms(2) nc r0
      by (auto simp: send_buffer_counts [OF dd] promoted_def send_fails_def)
    have "reachable ?s"
      using assms(1) by (rule reachable.send)
    with rc show "removed_count c (trace ?s) = 1
         \<and> (\<forall>s2. steps ?s s2 \<longrightarrow> c \<notin> set (clients s2) \<and> c \<notin> set (pending_clients s2))"
      using gone_for_good by blast
  qed
  from 1 2 3 4 show ?thesis by blast
qed


theorem pending_client_promotion_witness:
  "reachable two_live_one_pending \<and> 2 \<in> set (pending_clients two_live_one_pending)
   \<and> clients (snd (gst_srt_server_sink_send_buffer (headers_failing_on 9) two_live_one_pending))
       = [1, 0]
   \<and> removed_count 2
        (trace (snd (gst_srt_server_sink_send_buffer (headers_failing_on 9) two_live_one_pending)))
       = 1
   \<and> clients (snd (gst_srt_server_sink_send_buffer flowing two_live_one_pending)) = [2, 1, 0]"
proof -
  have p: "2 \<in> set (pending_clients two_live_one_pending)"
    by (simp add: two_live_one_pending_eq)
  have e: "send_headers (headers_failing_on 9) (sock (heap two_live_one_pending 2)) = False"
      "send_headers flowing (sock (heap two_live_one_pending 2)) = True"
      "sendmsg2 flowing (sock (heap two_live_one_pending 2)) \<noteq> SRT_ERROR"
    by (simp_all add: two_live_one_pending_eq headers_failing_on_def flowing_def SRT_ERROR_def)
  have l: "clients (snd (gst_srt_server_sink_send_buffer (headers_failing_on 9) two_live_one_pending))
       = [1, 0]"
    by (simp add: two_live_one_pending_eq headers_failing_on_def zeroed_def server_defs
        pending_clients_loop.simps)
  have f: "clients (snd (gst_srt_server_sink_send_buffer flowing two_live_one_pending)) = [2, 1, 0]"
    by (simp add: two_live_one_pending_eq flowing_def zeroed_def server_defs
        pending_clients_loop.simps)
  from pending_client_promotion [OF reachable_two_live_one_pending p, of "headers_failing_on 9"]
    pending_client_promotion [OF reachable_two_live_one_pending p, of flowing]
    reachable_two_live_one_pending p e l f
  show ?thesis by simp
qed

lemma in_set_live_actions:
  "\<not> backpressure_evicted env r \<Longrightarrow> Sendmsg (sock r) \<in> set (live_client_actions env d r)"
  by (simp add: live_client_actions_def)

text \<open>
  C6. Let the send to a live client fail in a call of \<^verbatim>\<open>send_buffer\<close> (the client not
  being removed for backpressure before the send is tried). The call returns \<^verbatim>\<open>TRUE\<close>.
  That client is out of the live list, with the send, its removed signal, the close of
  its socket and the release of its record in the log. Every other live client is treated
  on its own answers alone: it stays in the list exactly when it is not removed for
  backpressure and its own send succeeds, it gets a removed signal only otherwise, and
  unless it is removed for backpressure the buffer is sent to it in this call.
\<close>

theorem send_failure_isolated:
  assumes "reachable s" and "c \<in> set (clients s)"
    and "\<not> backpressure_evicted env (heap s c)"
    and "sendmsg2 env (sock (heap s c)) = SRT_ERROR"
  shows "fst (gst_srt_server_sink_send_buffer env s) = True
     \<and> c \<notin> set (clients (snd (gst_srt_server_sink_send_buffer env s)))
     \<and> removed_count c (trace (snd (gst_srt_server_sink_send_buffer env s))) = 1
     \<and> (\<exists>t1 t2. trace (snd (gst_srt_server_sink_send_buffer env s)) =
           trace s @ t1
             @ [Sendmsg (sock (heap s c)),
                ClientRemoved c (sock (heap s c)) (sockaddr (heap s c)),
                Close (sock (heap s c)), Free c]
             @ t2)
     \<and> (\<forall>d \<in> set (clients s). d \<noteq> c \<longrightarrow>
           ((d \<in> set (clients (snd (gst_srt_server_sink_send_buffer env s))))
              = (\<not> backpressure_evicted env (heap s d)
                 \<and> sendmsg2 env (sock (heap s d)) \<noteq> SRT_ERROR))
         \<and> removed_count d (trace (snd (gst_srt_server_sink_send_buffer env s)))
             = (if \<not> backpressure_evicted env (heap s d)
                   \<and> sendmsg2 env (sock (heap s d)) \<noteq> SRT_ERROR then 0 else 1)
         \<and> (\<not> backpressure_evicted env (heap s d) \<longrightarrow>
              Sendmsg (sock (heap s d))
                \<in> set (drop (length (trace s)) (trace (snd (gst_srt_server_sink_send_buffer env s))))))"
proof -
  let ?s = "snd (gst_srt_server_sink_send_buffer env s)"
  from assms have inv: "registry_inv s"
    by (simp add: reachable_registry_inv)
  then have dd: "distinct (clients s @ pending_clients s)"
    by (simp add: registry_inv_def)
  then have d: "distinct (clients s)" "distinct (pending_clients s)"
      "set (clients s) \<inter> set (pending_clients s) = {}"
    by auto
  have live: "\<And>d. d \<in> set (clients s) \<Longrightarrow>
      d \<notin> set (pending_clients s) \<and> sock (heap s d) \<noteq> SRT_INVALID_SOCK
      \<and> removed_count d (trace s) = 0"
    using inv d(3) unfolding registry_inv_def by auto
  have ev: "evicted env (heap s c)"
    using assms(4) by (simp add: evicted_def send_fails_def)
  have 1: "c \<notin> set (clients ?s)"
    using live [OF assms(2)] ev by (simp add: send_buffer_clients [OF d(1) d(3)])
  have 2: "removed_count c (trace ?s) = 1"
    using live [OF assms(2)] ev assms(2) by (simp add: send_buffer_counts [OF dd])
  obtain u1 u2 where u: "concat (map (\<lambda>c. live_client_actions env c (heap s c)) (clients s))
      = u1 @ live_client_actions env c (heap s c) @ u2"
    using concat_map_split [OF assms(2)] by blast
  have n: "live_client_actions env c (heap s c) =
      [Sendmsg (sock (heap s c)), ClientRemoved c (sock (heap s c)) (sockaddr (heap s c)),
       Close (sock (heap s c)), Free c]"
    using live [OF assms(2)] assms(3,4)
    by (simp add: live_client_actions_def removal_actions_def free_actions_def send_fails_def)
  have 3: "\<exists>t1 t2. trace ?s = trace s @ t1
             @ [Sendmsg (sock (heap s c)),
                ClientRemoved c (sock (heap s c)) (sockaddr (heap s c)),
                Close (sock (heap s c)), Free c]
             @ t2"
    by (intro exI [of _ u1]
        exI [of _ "u2 @ concat (map (\<lambda>c. new_client_actions env c (heap s c)) (pending_clients s))"])
      (simp add: send_buffer_trace [OF d(1) d(3)] u n)
  have 4: "\<forall>d \<in> set (clients s). d \<noteq> c \<longrightarrow>
           ((d \<in> set (clients ?s))
              = (\<not> backpressure_evicted env (heap s d)
                 \<and> sendmsg2 env (sock (heap s d)) \<noteq> SRT_ERROR))
         \<and> removed_count d (trace ?s)
             = (if \<not> backpressure_evicted env (heap s d)
                   \<and> sendmsg2 env (sock (heap s d)) \<noteq> SRT_ERROR then 0 else 1)
         \<and> (\<not> backpressure_evicted env (heap s d) \<longrightarrow>
              Sendmsg (sock (heap s d)) \<in> set (drop (length (trace s)) (trace ?s)))"
  proof (intro ballI impI)
    fix d assume m: "d \<in> set (clients s)" and "d \<noteq> c"
    have a: "(d \<in> set (clients ?s))
        = (\<not> backpressure_evicted env (heap s d) \<and> sendmsg2 env (sock (heap s d)) \<noteq> SRT_ERROR)"
      using m live [OF m]
      by (auto simp: send_buffer_clients [OF d(1) d(3)] evicted_def send_fails_def)
    have b: "removed_count d (trace ?s)
        = (if \<not> backpressure_evicted env (heap s d)
              \<and> sendmsg2 env (sock (heap s d)) \<noteq> SRT_ERROR then 0 else 1)"
      using m live [OF m]
      by (auto simp: send_buffer_counts [OF dd] evicted_def send_fails_def)
    have c: "\<not> backpressure_evicted env (heap s d) \<longrightarrow>
        Sendmsg (sock (heap s d)) \<in> set (drop (length (trace s)) (trace ?s))"
      using m in_set_live_actions [of env "heap s d" d]
      by (auto simp: send_buffer_trace [OF d(1) d(3)])
    from a b c show "((d \<in> set (clients ?s))
              = (\<not> backpressure_evicted env (heap s d)
                 \<and> sendmsg2 env (sock (heap s d)) \<noteq> SRT_ERROR))
         \<and> removed_count d (trace ?s)
             = (if \<not> backpressure_evicted env (heap s d)
                   \<and> sendmsg2 env (sock (heap s d)) \<noteq> SRT_ERROR then 0 else 1)
         \<and> (\<not> backpressure_evicted env (heap s d) \<longrightarrow>
              Sendmsg (sock (heap s d)) \<in> set (drop (length (trace s)) (trace ?s)))"
      by blast
  qed
  from 1 2 3 4 show ?thesis
    by (simp add: send_buffer_fields)
qed


theorem send_failure_isolated_witness:
  "reachable two_live_one_pending \<and> 0 \<in> set (clients two_live_one_pending)
   \<and> gst_srt_server_sink_send_buffer (failing_on 7) two_live_one_pending
       = (True, snd (gst_srt_server_sink_send_buffer (failing_on 7) two_live_one_pending))
   \<and> clients (snd (gst_srt_server_sink_send_buffer (failing_on 7) two_live_one_pending)) = [2, 1]
   \<and> drop (length (trace two_live_one_pending))
        (trace (snd (gst_srt_server_sink_send_buffer (failing_on 7) two_live_one_pending)))
       = [Sendmsg 8, Sendmsg 7, ClientRemoved 0 7 (Some 1), Close 7, Free 0,
          SendHeaders 9, Sendmsg 9]"
proof -
  have p: "0 \<in> set (clients two_live_one_pending)"
    by (simp add: two_live_one_pending_eq)
  have b: "\<not> backpressure_evicted (failing_on 7) (heap two_live_one_pending 0)"
    by (simp add: two_live_one_pending_eq backpressure_evicted_def can_client_recv_def
        failing_on_def SRT_SEND_BUFFER_SIZE_def)
  have e: "sendmsg2 (failing_on 7) (sock (heap two_live_one_pending 0)) = SRT_ERROR"
    by (simp add: two_live_one_pending_eq failing_on_def SRT_ERROR_def)
  have l: "snd (gst_srt_server_sink_send_buffer (failing_on 7) two_live_one_pending)
      = two_live_one_pending\<lparr>clients := [2, 1], pending_clients := [],
          trace := trace two_live_one_pending
            @ [Sendmsg 8, Sendmsg 7, ClientRemoved 0 7 (Some 1), Close 7, Free 0,
               SendHeaders 9, Sendmsg 9]\<rparr>"
    by (simp add: two_live_one_pending_eq failing_on_def zeroed_def server_defs
        pending_clients_loop.simps)
  from send_failure_isolated [OF reachable_two_live_one_pending p b e]
    reachable_two_live_one_pending p l
  show ?thesis
    by (simp add: prod_eq_iff)
qed

lemma thread_func_exit: "fst (thread_func script s) = Exited \<Longrightarrow> cancelled (snd (thread_func script s))"
  by (induction script arbitrary: s) (auto simp: Let_def)

text \<open>
  C7, as the loop is written. On a timeout of the wait no error is posted; if the flag
  is set at that moment the turn ends there, with no accept, and the loop goes back to
  its test; if the flag is not set the turn goes on to \<^verbatim>\<open>srt_accept\<close>. On any other
  failure of the wait the error is posted, no accept is made, and the loop goes on with
  the next turn. A turn starts only if the test finds the flag unset; the thread exits
  when the test finds it set, and whenever the thread has exited the flag is set.
\<close>

theorem accept_loop_wait_outcomes:
  "(wait i = WaitTimeout \<and> cancelled (write_flag (flag_write_during_wait i) s) \<longrightarrow>
      thread_iteration i s = write_flag (flag_write_during_wait i) s
      \<and> trace (thread_iteration i s) = trace s)
   \<and> (wait i = WaitTimeout \<and> \<not> cancelled (write_flag (flag_write_during_wait i) s) \<longrightarrow>
      thread_iteration i s = accept_client i (write_flag (flag_write_during_wait i) s)
      \<and> trace (thread_iteration i s) =
          trace s @ [Accept,
                     if accept_sock i = SRT_INVALID_SOCK then Free (next_client s)
                     else ClientAdded (next_client s) (accept_sock i) (accept_addr i)])
   \<and> (wait i = WaitFailed \<longrightarrow>
      thread_iteration i s = do_action PostError (write_flag (flag_write_during_wait i) s)
      \<and> trace (thread_iteration i s) = trace s @ [PostError])
   \<and> (\<not> cancelled (write_flag (flag_write_before_test i) s) \<longrightarrow>
      thread_func (i # rest) s
        = thread_func rest (thread_iteration i (write_flag (flag_write_before_test i) s)))
   \<and> (cancelled (write_flag (flag_write_before_test i) s) \<longrightarrow>
      thread_func (i # rest) s = (Exited, write_flag (flag_write_before_test i) s))
   \<and> (fst (thread_func script s) = Exited \<longrightarrow> cancelled (snd (thread_func script s)))"
proof -
  have t: "\<And>w. trace (write_flag w s) = trace s" "\<And>w. next_client (write_flag w s) = next_client s"
    by (simp_all add: write_flag_def split: option.splits)
  show ?thesis
    using thread_func_exit [of script s]
    by (auto simp: thread_iteration_def accept_client_eq do_action_def Let_def t)
qed

theorem accept_loop_wait_outcomes_witness:
  "trace (thread_iteration
      \<lparr>flag_write_before_test = None, wait = WaitTimeout, flag_write_during_wait = Some True,
        accept_sock = 7, accept_addr = Some 1\<rparr> started) = []
   \<and> trace (thread_iteration
      \<lparr>flag_write_before_test = None, wait = WaitTimeout, flag_write_during_wait = None,
        accept_sock = 7, accept_addr = Some 1\<rparr> started) = [Accept, ClientAdded 0 7 (Some 1)]
   \<and> trace (thread_iteration
      \<lparr>flag_write_before_test = None, wait = WaitFailed, flag_write_during_wait = None,
        accept_sock = 7, accept_addr = Some 1\<rparr> started) = [PostError]
   \<and> fst (thread_func
      [\<lparr>flag_write_before_test = None, wait = WaitFailed, flag_write_during_wait = None,
        accept_sock = 7, accept_addr = Some 1\<rparr>,
       \<lparr>flag_write_before_test = Some True, wait = WaitReady, flag_write_during_wait = None,
        accept_sock = 7, accept_addr = Some 1\<rparr>] started) = Exited
   \<and> trace (snd (thread_func
      [\<lparr>flag_write_before_test = None, wait = WaitFailed, flag_write_during_wait = None,
        accept_sock = 7, accept_addr = Some 1\<rparr>,
       \<lparr>flag_write_before_test = Some True, wait = WaitReady, flag_write_during_wait = None,
        accept_sock = 7, accept_addr = Some 1\<rparr>] started)) = [PostError]"
  using
    accept_loop_wait_outcomes [where i = "\<lparr>flag_write_before_test = None, wait = WaitTimeout, flag_write_during_wait = Some True,
        accept_sock = 7, accept_addr = Some 1\<rparr>" and s = started]
    accept_loop_wait_outcomes [where i = "\<lparr>flag_write_before_test = None, wait = WaitTimeout, flag_write_during_wait = None,
        accept_sock = 7, accept_addr = Some 1\<rparr>" and s = started]
    accept_loop_wait_outcomes [where i = "\<lparr>flag_write_before_test = None, wait = WaitFailed, flag_write_during_wait = None,
        accept_sock = 7, accept_addr = Some 1\<rparr>" and s = started
      and rest = "[\<lparr>flag_write_before_test = Some True, wait = WaitReady, flag_write_during_wait = None,
        accept_sock = 7, accept_addr = Some 1\<rparr>]"]
  by (simp add: session_defs server_defs)

text \<open>
  C7 as the specification states it has every timeout return to the test without an
  accept. A timeout while the flag is unset is followed by \<^verbatim>\<open>srt_accept\<close>.
\<close>

theorem accept_loop_timeout_counterexample:
  "wait \<lparr>flag_write_before_test = None, wait = WaitTimeout, flag_write_during_wait = None,
        accept_sock = 7, accept_addr = Some 1\<rparr> = WaitTimeout
   \<and> \<not> cancelled started
   \<and> Accept \<in> set (trace (thread_iteration
      \<lparr>flag_write_before_test = None, wait = WaitTimeout, flag_write_during_wait = None,
        accept_sock = 7, accept_addr = Some 1\<rparr> started))"
  by (simp add: session_defs server_defs)

subsection \<open>Base source\<close>

text \<open>
  C10. The key-length setter: a value outside \<open>{16, 24, 32}\<close> is rejected (the check fails
  and the whole object is left as it was, the stored key length included); a value of
  \<open>{16, 24, 32}\<close> is stored.
\<close>

theorem key_length_setter:
  "(v \<notin> {16, 24, 32} \<longrightarrow>
      gst_srt_base_src_set_property self (PROP_KEY_LENGTH v) = (self, [CriticalCheckFailed])
      \<and> key_length (fst (gst_srt_base_src_set_property self (PROP_KEY_LENGTH v))) = key_length self)
   \<and> (v \<in> {16, 24, 32} \<longrightarrow>
      gst_srt_base_src_set_property self (PROP_KEY_LENGTH v) = (self\<lparr>key_length := v\<rparr>, [])
      \<and> key_length (fst (gst_srt_base_src_set_property self (PROP_KEY_LENGTH v))) = v)"
  by auto

theorem key_length_setter_witness:
  "(17::int) \<notin> {16, 24, 32} \<and> (24::int) \<in> {16, 24, 32}
   \<and> key_length (fst (gst_srt_base_src_set_property
        \<lparr>uri = None, caps = None, latency = 125, passphrase = None, key_length = 16\<rparr>
        (PROP_KEY_LENGTH 17))) = 16
   \<and> key_length (fst (gst_srt_base_src_set_property
        \<lparr>uri = None, caps = None, latency = 125, passphrase = None, key_length = 16\<rparr>
        (PROP_KEY_LENGTH 24))) = 24"
  using key_length_setter [of 17 "\<lparr>uri = None, caps = None, latency = 125, passphrase = None, key_length = 16\<rparr>"]
        key_length_setter [of 24 "\<lparr>uri = None, caps = None, latency = 125, passphrase = None, key_length = 16\<rparr>"]
  by simp

subsection \<open>Client source\<close>

lemma sint_diff:
  fixes a b :: "32 word"
  assumes "- (2 ^ 31) \<le> sint a - sint b" "sint a - sint b < 2 ^ 31"
  shows "sint (a - b) = sint a - sint b"
  using assms by (simp add: sint_word_ariths signed_take_bit_int_eq_self)

lemma fill_received:
  "received env \<Longrightarrow>
     gst_srt_client_src_fill priv outbuf env =
       (GST_FLOW_OK, priv\<lparr>last_msg_num := ctrl_msgno env\<rparr>,
        outbuf\<lparr>buf_data := take (nat (recv_len env)) (write_bytes (buf_data outbuf) (recv_data env)),
               buf_pts := Some (clock_time env - base_time env),
               buf_src_time := Some (ctrl_srctime env)\<rparr>,
        (if recv_len env \<noteq> 1316 then [WeirdReceivedSize (recv_len env)] else []) @
        (if last_msg_num priv \<noteq> 0 \<and> 1 < sint (ctrl_msgno env - last_msg_num priv)
         then [Dropped (sint (ctrl_msgno env - last_msg_num priv - 1))
                 (last_msg_num priv) (ctrl_msgno env)]
         else []))"
  by (simp add: gst_srt_client_src_fill_def received_def Let_def)

text \<open>
  C8. When the receive call of a fill returns zero bytes the fill returns end-of-stream;
  when it returns the error value the fill returns the flow error (the read failure is
  posted); in every other case the fill succeeds, and the buffer then holds exactly the
  bytes the receive call delivered.
\<close>

theorem fill_flow_return:
  "map_ok env \<Longrightarrow>
     (recv_len env = 0 \<longrightarrow>
        fst (gst_srt_client_src_fill priv outbuf env) = GST_FLOW_EOS)
   \<and> (recv_len env = SRT_ERROR \<longrightarrow>
        fst (gst_srt_client_src_fill priv outbuf env) = GST_FLOW_ERROR
        \<and> snd (snd (snd (gst_srt_client_src_fill priv outbuf env))) = [ElementErrorRead])
   \<and> (recv_len env \<noteq> 0 \<and> recv_len env \<noteq> SRT_ERROR \<longrightarrow>
        fst (gst_srt_client_src_fill priv outbuf env) = GST_FLOW_OK
        \<and> (recv_len env = int (length (recv_data env))
             \<and> length (recv_data env) \<le> length (buf_data outbuf) \<longrightarrow>
           buf_data (fst (snd (snd (gst_srt_client_src_fill priv outbuf env)))) = recv_data env))"
  by (auto simp: gst_srt_client_src_fill_def Let_def SRT_ERROR_def write_bytes_def)

theorem fill_flow_return_witness:
  "fst (gst_srt_client_src_fill
      \<lparr>src_sock = 3, src_poll_id = 1, src_poll_timeout = -1, last_msg_num = 0,
        src_rendezvous = False, src_bind_address = None, src_bind_port = 0\<rparr>
      \<lparr>buf_data = [0, 0, 0, 0], buf_pts = None, buf_src_time = None\<rparr>
      \<lparr>map_ok = True, recv_len = 0, recv_data = [], ctrl_msgno = 0, ctrl_srctime = 0,
        clock_time = 50, base_time = 20\<rparr>) = GST_FLOW_EOS
   \<and> fst (gst_srt_client_src_fill
      \<lparr>src_sock = 3, src_poll_id = 1, src_poll_timeout = -1, last_msg_num = 0,
        src_rendezvous = False, src_bind_address = None, src_bind_port = 0\<rparr>
      \<lparr>buf_data = [0, 0, 0, 0], buf_pts = None, buf_src_time = None\<rparr>
      \<lparr>map_ok = True, recv_len = -1, recv_data = [], ctrl_msgno = 0, ctrl_srctime = 0,
        clock_time = 50, base_time = 20\<rparr>) = GST_FLOW_ERROR
   \<and> fst (gst_srt_client_src_fill
      \<lparr>src_sock = 3, src_poll_id = 1, src_poll_timeout = -1, last_msg_num = 0,
        src_rendezvous = False, src_bind_address = None, src_bind_port = 0\<rparr>
      \<lparr>buf_data = [0, 0, 0, 0], buf_pts = None, buf_src_time = None\<rparr>
      \<lparr>map_ok = True, recv_len = 3, recv_data = [7, 8, 9], ctrl_msgno = 1, ctrl_srctime = 0,
        clock_time = 50, base_time = 20\<rparr>) = GST_FLOW_OK
   \<and> buf_data (fst (snd (snd (gst_srt_client_src_fill
      \<lparr>src_sock = 3, src_poll_id = 1, src_poll_timeout = -1, last_msg_num = 0,
        src_rendezvous = False, src_bind_address = None, src_bind_port = 0\<rparr>
      \<lparr>buf_data = [0, 0, 0, 0], buf_pts = None, buf_src_time = None\<rparr>
      \<lparr>map_ok = True, recv_len = 3, recv_data = [7, 8, 9], ctrl_msgno = 1, ctrl_srctime = 0,
        clock_time = 50, base_time = 20\<rparr>)))) = [7, 8, 9]"
  using
    fill_flow_return [of
      "\<lparr>map_ok = True, recv_len = 0, recv_data = [], ctrl_msgno = 0, ctrl_srctime = 0,
        clock_time = 50, base_time = 20\<rparr>"
      "\<lparr>src_sock = 3, src_poll_id = 1, src_poll_timeout = -1, last_msg_num = 0,
        src_rendezvous = False, src_bind_address = None, src_bind_port = 0\<rparr>"
      "\<lparr>buf_data = [0, 0, 0, 0], buf_pts = None, buf_src_time = None\<rparr>"]
    fill_flow_return [of
      "\<lparr>map_ok = True, recv_len = -1, recv_data = [], ctrl_msgno = 0, ctrl_srctime = 0,
        clock_time = 50, base_time = 20\<rparr>"
      "\<lparr>src_sock = 3, src_poll_id = 1, src_poll_timeout = -1, last_msg_num = 0,
        src_rendezvous = False, src_bind_address = None, src_bind_port = 0\<rparr>"
      "\<lparr>buf_data = [0, 0, 0, 0], buf_pts = None, buf_src_time = None\<rparr>"]
    fill_flow_return [of
      "\<lparr>map_ok = True, recv_len = 3, recv_data = [7, 8, 9], ctrl_msgno = 1, ctrl_srctime = 0,
        clock_time = 50, base_time = 20\<rparr>"
      "\<lparr>src_sock = 3, src_poll_id = 1, src_poll_timeout = -1, last_msg_num = 0,
        src_rendezvous = False, src_bind_address = None, src_bind_port = 0\<rparr>"
      "\<lparr>buf_data = [0, 0, 0, 0], buf_pts = None, buf_src_time = None\<rparr>"]
  by (simp add: SRT_ERROR_def)

text \<open>
  C9. Starting from the state \<^verbatim>\<open>gst_srt_client_src_start\<close> leaves (last message number 0),
  three fills that receive message numbers 5, 6 and 9 report a gap once, on the third
  fill, as 2 dropped messages from 6 to 9, and the last message number is then 9. In
  general, on a fill that receives a message (the difference of the two numbers being
  representable in 32 bits), a gap is reported if and only if the last message number is
  not 0 and the new number exceeds it by more than 1; the report gives the difference
  minus one, and the new number becomes the last message number.
\<close>

theorem sequence_gap_diagnostic:
  "(received e1 \<and> received e2 \<and> received e3
      \<and> ctrl_msgno e1 = 5 \<and> ctrl_msgno e2 = 6 \<and> ctrl_msgno e3 = 9 \<and> last_msg_num priv = 0 \<longrightarrow>
      map (filter is_dropped) (snd (fills priv [(b1, e1), (b2, e2), (b3, e3)]))
        = [[], [], [Dropped 2 6 9]]
      \<and> last_msg_num (fst (fills priv [(b1, e1), (b2, e2), (b3, e3)])) = 9)
   \<and> (received env
      \<and> - (2 ^ 31) \<le> sint (ctrl_msgno env) - sint (last_msg_num priv)
      \<and> sint (ctrl_msgno env) - sint (last_msg_num priv) < 2 ^ 31 \<longrightarrow>
      filter is_dropped (snd (snd (snd (gst_srt_client_src_fill priv outbuf env))))
        = (if sint (last_msg_num priv) \<noteq> 0
              \<and> sint (ctrl_msgno env) - sint (last_msg_num priv) > 1
           then [Dropped (sint (ctrl_msgno env) - sint (last_msg_num priv) - 1)
                   (last_msg_num priv) (ctrl_msgno env)]
           else [])
      \<and> last_msg_num (fst (snd (gst_srt_client_src_fill priv outbuf env))) = ctrl_msgno env)"
proof (intro conjI impI)
  assume a: "received e1 \<and> received e2 \<and> received e3
      \<and> ctrl_msgno e1 = 5 \<and> ctrl_msgno e2 = 6 \<and> ctrl_msgno e3 = 9 \<and> last_msg_num priv = 0"
  then show "map (filter is_dropped) (snd (fills priv [(b1, e1), (b2, e2), (b3, e3)]))
        = [[], [], [Dropped 2 6 9]]"
    by (simp add: fill_received)
  from a show "last_msg_num (fst (fills priv [(b1, e1), (b2, e2), (b3, e3)])) = 9"
    by (simp add: fill_received)
next
  assume a: "received env
      \<and> - (2 ^ 31) \<le> sint (ctrl_msgno env) - sint (last_msg_num priv)
      \<and> sint (ctrl_msgno env) - sint (last_msg_num priv) < 2 ^ 31"
  then have d: "sint (ctrl_msgno env - last_msg_num priv)
      = sint (ctrl_msgno env) - sint (last_msg_num priv)"
    by (simp add: sint_diff)
  have z: "(last_msg_num priv \<noteq> 0) = (sint (last_msg_num priv) \<noteq> 0)"
    by (simp add: signed_eq_0_iff)
  have d1: "1 < sint (ctrl_msgno env) - sint (last_msg_num priv) \<Longrightarrow>
      sint (ctrl_msgno env - last_msg_num priv - 1)
        = sint (ctrl_msgno env) - sint (last_msg_num priv) - 1"
  proof -
    assume g: "1 < sint (ctrl_msgno env) - sint (last_msg_num priv)"
    have "sint (ctrl_msgno env - last_msg_num priv - 1)
        = sint (ctrl_msgno env - last_msg_num priv) - sint (1 :: 32 word)"
      using a g d by (intro sint_diff) simp_all
    then show ?thesis using d by simp
  qed
  from a d z d1 show "filter is_dropped (snd (snd (snd (gst_srt_client_src_fill priv outbuf env))))
        = (if sint (last_msg_num priv) \<noteq> 0
              \<and> sint (ctrl_msgno env) - sint (last_msg_num priv) > 1
           then [Dropped (sint (ctrl_msgno env) - sint (last_msg_num priv) - 1)
                   (last_msg_num priv) (ctrl_msgno env)]
           else [])"
    by (simp add: fill_received del: signed_eq_0_iff)
  from a show "last_msg_num (fst (snd (gst_srt_client_src_fill priv outbuf env))) = ctrl_msgno env"
    by (simp add: fill_received)
qed


theorem sequence_gap_diagnostic_witness:
  "map (filter is_dropped) (snd (fills
      \<lparr>src_sock = 3, src_poll_id = 1, src_poll_timeout = -1, last_msg_num = 0,
        src_rendezvous = False, src_bind_address = None, src_bind_port = 0\<rparr>
      [(\<lparr>buf_data = [0, 0], buf_pts = None, buf_src_time = None\<rparr>,
        \<lparr>map_ok = True, recv_len = 2, recv_data = [1, 1], ctrl_msgno = 5, ctrl_srctime = 0,
          clock_time = 50, base_time = 20\<rparr>),
       (\<lparr>buf_data = [0, 0], buf_pts = None, buf_src_time = None\<rparr>,
        \<lparr>map_ok = True, recv_len = 2, recv_data = [2, 2], ctrl_msgno = 6, ctrl_srctime = 0,
          clock_time = 60, base_time = 20\<rparr>),
       (\<lparr>buf_data = [0, 0], buf_pts = None, buf_src_time = None\<rparr>,
        \<lparr>map_ok = True, recv_len = 2, recv_data = [3, 3], ctrl_msgno = 9, ctrl_srctime = 0,
          clock_time = 70, base_time = 20\<rparr>)]))
     = [[], [], [Dropped 2 6 9]]
   \<and> filter is_dropped (snd (snd (snd (gst_srt_client_src_fill
      \<lparr>src_sock = 3, src_poll_id = 1, src_poll_timeout = -1, last_msg_num = 6,
        src_rendezvous = False, src_bind_address = None, src_bind_port = 0\<rparr>
      \<lparr>buf_data = [0, 0], buf_pts = None, buf_src_time = None\<rparr>
      \<lparr>map_ok = True, recv_len = 2, recv_data = [3, 3], ctrl_msgno = 9, ctrl_srctime = 0,
        clock_time = 70, base_time = 20\<rparr>))))
     = [Dropped 2 6 9]"
  using
    sequence_gap_diagnostic [of
      "\<lparr>map_ok = True, recv_len = 2, recv_data = [1, 1], ctrl_msgno = 5, ctrl_srctime = 0,
        clock_time = 50, base_time = 20\<rparr>"
      "\<lparr>map_ok = True, recv_len = 2, recv_data = [2, 2], ctrl_msgno = 6, ctrl_srctime = 0,
        clock_time = 60, base_time = 20\<rparr>"
      "\<lparr>map_ok = True, recv_len = 2, recv_data = [3, 3], ctrl_msgno = 9, ctrl_srctime = 0,
        clock_time = 70, base_time = 20\<rparr>"
      "\<lparr>src_sock = 3, src_poll_id = 1, src_poll_timeout = -1, last_msg_num = 0,
        src_rendezvous = False, src_bind_address = None, src_bind_port = 0\<rparr>"
      "\<lparr>buf_data = [0, 0], buf_pts = None, buf_src_time = None\<rparr>"
      "\<lparr>buf_data = [0, 0], buf_pts = None, buf_src_time = None\<rparr>"
      "\<lparr>buf_data = [0, 0], buf_pts = None, buf_src_time = None\<rparr>"]
    sequence_gap_diagnostic [where
      env = "\<lparr>map_ok = True, recv_len = 2, recv_data = [3, 3], ctrl_msgno = 9, ctrl_srctime = 0,
        clock_time = 70, base_time = 20\<rparr>"
      and priv = "\<lparr>src_sock = 3, src_poll_id = 1, src_poll_timeout = -1, last_msg_num = 6,
        src_rendezvous = False, src_bind_address = None, src_bind_port = 0\<rparr>"
      and outbuf = "\<lparr>buf_data = [0, 0], buf_pts = None, buf_src_time = None\<rparr>"]
  by (simp add: received_def SRT_ERROR_def)

subsection \<open>Connect helper\<close>

lemma created_polls_append [simp]: "created_polls (t @ u) = created_polls t @ created_polls u"
  by (induction t rule: created_polls.induct) auto
lemma created_socks_append [simp]: "created_socks (t @ u) = created_socks t @ created_socks u"
  by (induction t rule: created_socks.induct) auto
lemma released_polls_append [simp]: "released_polls (t @ u) = released_polls t @ released_polls u"
  by (induction t rule: released_polls.induct) auto
lemma closed_socks_append [simp]: "closed_socks (t @ u) = closed_socks t @ closed_socks u"
  by (induction t rule: closed_socks.induct) auto
lemma options_set_append [simp]: "options_set (t @ u) = options_set t @ options_set u"
  by (induction t rule: options_set.induct) auto

lemma log_of_setsockopts [simp]:
  "created_polls (map (\<lambda>(opt, v). SetSockOpt s opt v) os) = []"
  "created_socks (map (\<lambda>(opt, v). SetSockOpt s opt v) os) = []"
  "released_polls (map (\<lambda>(opt, v). SetSockOpt s opt v) os) = []"
  "closed_socks (map (\<lambda>(opt, v). SetSockOpt s opt v) os) = []"
  "options_set (map (\<lambda>(opt, v). SetSockOpt s opt v) os) = os"
  by (induction os) auto

lemma failed_log:
  "ret (failed poll sk t e) = SRT_INVALID_SOCK"
  "poll_id_out (failed poll sk t e) = SRT_ERROR"
  "error (failed poll sk t e) = Some e"
  "released_polls (calls (failed poll sk t e))
     = released_polls t @ (if poll \<noteq> SRT_ERROR then [poll] else [])"
  "closed_socks (calls (failed poll sk t e))
     = closed_socks t @ (if sk \<noteq> SRT_INVALID_SOCK then [sk] else [])"
  "created_polls (calls (failed poll sk t e)) = created_polls t"
  "created_socks (calls (failed poll sk t e)) = created_socks t"
  "options_set (calls (failed poll sk t e)) = options_set t"
  by (simp_all add: failed_def Let_def)

lemma connect_and_register_rollback:
  assumes "created_polls t = [poll]" "created_socks t = [sk]" "released_polls t = []"
    "closed_socks t = []" "poll \<noteq> -1" "sk \<noteq> -1"
  shows "error (connect_and_register env a sa poll sk t) = Some e \<Longrightarrow>
     ret (connect_and_register env a sa poll sk t) = SRT_INVALID_SOCK
     \<and> poll_id_out (connect_and_register env a sa poll sk t) = SRT_ERROR
     \<and> released_polls (calls (connect_and_register env a sa poll sk t)) = [poll]
     \<and> closed_socks (calls (connect_and_register env a sa poll sk t)) = [sk]
     \<and> created_polls (calls (connect_and_register env a sa poll sk t)) = [poll]
     \<and> created_socks (calls (connect_and_register env a sa poll sk t)) = [sk]
     \<and> e \<in> {FailedToConnect, SocketNotConnected}"
  using assms
  by (auto simp: connect_and_register_def Let_def failed_log SRT_ERROR_def SRT_INVALID_SOCK_def
      split: if_splits)

lemma bind_and_connect_rollback:
  assumes "created_polls t = [poll]" "created_socks t = [sk]" "released_polls t = []"
    "closed_socks t = []" "poll \<noteq> -1" "sk \<noteq> -1"
  shows "error (bind_and_connect env a sa poll sk t) = Some e \<Longrightarrow>
     ret (bind_and_connect env a sa poll sk t) = SRT_INVALID_SOCK
     \<and> poll_id_out (bind_and_connect env a sa poll sk t) = SRT_ERROR
     \<and> released_polls (calls (bind_and_connect env a sa poll sk t)) = [poll]
     \<and> closed_socks (calls (bind_and_connect env a sa poll sk t)) = [sk]
     \<and> created_polls (calls (bind_and_connect env a sa poll sk t)) = [poll]
     \<and> created_socks (calls (bind_and_connect env a sa poll sk t)) = [sk]
     \<and> e \<in> {FailedToParseBindAddress, CannotResolveBindAddress, CannotBind,
             FailedToConnect, SocketNotConnected}"
  using assms connect_and_register_rollback [of t poll sk env a sa e]
    connect_and_register_rollback [of "t @ [SrtBind sk bsa]" poll sk env a sa e for bsa]
  by (auto simp: bind_and_connect_def Let_def failed_log SRT_ERROR_def SRT_INVALID_SOCK_def
      split: if_splits option.splits)


lemma connect_full_rollback:
  assumes "arg_poll_id a = SRT_ERROR"
    and "error (gst_srt_client_connect_full env a) = Some e"
  shows "ret (gst_srt_client_connect_full env a) = SRT_INVALID_SOCK
     \<and> poll_id_out (gst_srt_client_connect_full env a) = SRT_ERROR
     \<and> released_polls (calls (gst_srt_client_connect_full env a))
         = created_polls (calls (gst_srt_client_connect_full env a))
     \<and> closed_socks (calls (gst_srt_client_connect_full env a))
         = created_socks (calls (gst_srt_client_connect_full env a))
     \<and> created_polls (calls (gst_srt_client_connect_full env a))
         = (if e \<in> {UnspecifiedNullHost, FailedToParseHost, FailedToCreatePollId} then []
            else [env_epoll_create env])
     \<and> created_socks (calls (gst_srt_client_connect_full env a))
         = (if e \<in> {UnspecifiedNullHost, FailedToParseHost, FailedToCreatePollId,
                     CannotResolveAddress, FailedToCreateSocket} then []
            else [env_socket env])"
proof (cases "arg_host a")
  case None
  with assms show ?thesis
    by (auto simp: gst_srt_client_connect_full_def failed_log)
next
  case (Some h)
  note host = this
  show ?thesis
  proof (cases "env_parse_address env h (arg_port a)")
    case None
    with assms host show ?thesis
      by (auto simp: gst_srt_client_connect_full_def failed_log)
  next
    case (Some sa)
    note addr = this
    show ?thesis
    proof (cases "env_epoll_create env = -1 \<or> \<not> env_to_native env sa \<or> env_socket env = -1")
      case True
      with assms host addr show ?thesis
        by (auto simp: gst_srt_client_connect_full_def failed_log Let_def SRT_ERROR_def
            SRT_INVALID_SOCK_def split: if_splits)
    next
      case False
      let ?t = "[EpollCreate (env_epoll_create env), SrtSocket (env_socket env)]
          @ map (\<lambda>(opt, v). SetSockOpt (env_socket env) opt v)
              (socket_options (arg_is_sender a) (arg_latency a) (arg_rendezvous a)
                 (arg_passphrase a) (arg_key_length a))"
      from False host addr have eq: "gst_srt_client_connect_full env a
          = bind_and_connect env a sa (env_epoll_create env) (env_socket env) ?t"
        by (simp add: gst_srt_client_connect_full_def Let_def SRT_ERROR_def)
      from False have t: "created_polls ?t = [env_epoll_create env]"
          "created_socks ?t = [env_socket env]" "released_polls ?t = []" "closed_socks ?t = []"
        by simp_all
      from False have ne: "env_epoll_create env \<noteq> -1" "env_socket env \<noteq> -1"
        by simp_all
      from bind_and_connect_rollback [OF t ne, of env a sa e] assms(2) eq
      show ?thesis by auto
    qed
  qed
qed

lemma connect_full_ret:
  "(error (gst_srt_client_connect_full env a) = None)
     = (ret (gst_srt_client_connect_full env a) \<noteq> SRT_INVALID_SOCK)"
  by (auto simp: gst_srt_client_connect_full_def bind_and_connect_def connect_and_register_def
      failed_log Let_def SRT_ERROR_def SRT_INVALID_SOCK_def split: option.splits if_splits)

lemma connect_full_success_only_if:
  assumes "error (gst_srt_client_connect_full env a) = None"
  shows "\<exists>h sa. arg_host a = Some h \<and> env_parse_address env h (arg_port a) = Some sa
     \<and> env_epoll_create env \<noteq> -1 \<and> env_to_native env sa \<and> env_socket env \<noteq> SRT_ERROR
     \<and> (arg_bind_address a \<noteq> None \<or> arg_bind_port a \<noteq> 0 \<or> arg_rendezvous a \<longrightarrow>
          (\<exists>bsa. env_parse_address env
                    (case arg_bind_address a of None \<Rightarrow> ''0.0.0.0'' | Some b \<Rightarrow> b)
                    (if arg_rendezvous a then arg_port a else arg_bind_port a) = Some bsa
                 \<and> env_to_native env bsa)
          \<and> env_bind env \<noteq> SRT_ERROR)
     \<and> env_connect env \<noteq> SRT_ERROR \<and> env_sockstate env = SRTS_CONNECTED"
  using assms
  by (auto simp: gst_srt_client_connect_full_def bind_and_connect_def connect_and_register_def
      failed_log Let_def split: option.splits if_splits)

lemma connect_full_options:
  "created_socks (calls (gst_srt_client_connect_full env a)) \<noteq> [] \<Longrightarrow>
     options_set (calls (gst_srt_client_connect_full env a))
       = socket_options (arg_is_sender a) (arg_latency a) (arg_rendezvous a)
           (arg_passphrase a) (arg_key_length a)"
  by (auto simp: gst_srt_client_connect_full_def bind_and_connect_def connect_and_register_def
      failed_log Let_def SRT_ERROR_def split: option.splits if_splits)

lemma socket_options_members:
  "(SRTO_TSBPDMODE, IntVal 1) \<in> set (socket_options s l r p k)"
  "(SRTO_LINGER, IntVal 0) \<in> set (socket_options s l r p k)"
  "(SRTO_SENDER, IntVal (if s then 1 else 0)) \<in> set (socket_options s l r p k)"
  "(SRTO_RENDEZVOUS, IntVal (if r then 1 else 0)) \<in> set (socket_options s l r p k)"
  "s \<Longrightarrow> (SRTO_PEERLATENCY, IntVal l) \<in> set (socket_options s l r p k)"
  "s \<Longrightarrow> SRTO_RCVLATENCY \<notin> set (map fst (socket_options s l r p k))"
  "\<not> s \<Longrightarrow> (SRTO_RCVLATENCY, IntVal l) \<in> set (socket_options s l r p k)"
  "\<not> s \<Longrightarrow> SRTO_PEERLATENCY \<notin> set (map fst (socket_options s l r p k))"
  "SRTO_SNDSYN \<notin> set (map fst (socket_options s l r p k))"
  "distinct (map fst (socket_options s l r p k))"
  by (auto simp: socket_options_def split: option.splits)

lemma socket_options_passphrase:
  "(SRTO_PASSPHRASE \<in> set (map fst (socket_options s l r p k))) = (\<exists>pw. p = Some pw \<and> pw \<noteq> [])"
  "(SRTO_PBKEYLEN \<in> set (map fst (socket_options s l r p k))) = (\<exists>pw. p = Some pw \<and> pw \<noteq> [])"
  "p = Some pw \<Longrightarrow> pw \<noteq> [] \<Longrightarrow> (SRTO_PASSPHRASE, StrVal pw) \<in> set (socket_options s l r p k)
     \<and> (SRTO_PBKEYLEN, IntVal k) \<in> set (socket_options s l r p k)"
  by (auto simp: socket_options_def image_iff split: option.splits)


text \<open>
  C4. The helper is entered with \<^verbatim>\<open>*poll_id\<close> holding \<^verbatim>\<open>SRT_ERROR\<close>, as the element's
  init, unlock and the helper's own failure path leave it. It returns
  \<^verbatim>\<open>SRT_INVALID_SOCK\<close> exactly when it reports one of its errors. At every error (null host,
  host not parsed, multiplexer not created, address not resolved, socket not created, bind
  address not parsed or resolved, bind failed, connect failed, socket not in the connected
  state) the multiplexers released are the multiplexers created, the sockets closed are the
  sockets created (as lists of calls: each once), \<^verbatim>\<open>*poll_id\<close> is \<^verbatim>\<open>SRT_ERROR\<close> again, and
  what had been created at that point is: nothing before the multiplexer exists, the
  multiplexer alone before the socket exists, both afterwards. A run without error has
  passed every one of these checks.
\<close>

theorem connect_helper_rollback:
  assumes "arg_poll_id a = SRT_ERROR"
  shows "((error (gst_srt_client_connect_full env a) = None)
            = (ret (gst_srt_client_connect_full env a) \<noteq> SRT_INVALID_SOCK))
     \<and> (\<forall>e. error (gst_srt_client_connect_full env a) = Some e \<longrightarrow>
           ret (gst_srt_client_connect_full env a) = SRT_INVALID_SOCK
         \<and> poll_id_out (gst_srt_client_connect_full env a) = SRT_ERROR
         \<and> released_polls (calls (gst_srt_client_connect_full env a))
             = created_polls (calls (gst_srt_client_connect_full env a))
         \<and> closed_socks (calls (gst_srt_client_connect_full env a))
             = created_socks (calls (gst_srt_client_connect_full env a))
         \<and> created_polls (calls (gst_srt_client_connect_full env a))
             = (if e \<in> {UnspecifiedNullHost, FailedToParseHost, FailedToCreatePollId} then []
                else [env_epoll_create env])
         \<and> created_socks (calls (gst_srt_client_connect_full env a))
             = (if e \<in> {UnspecifiedNullHost, FailedToParseHost, FailedToCreatePollId,
                         CannotResolveAddress, FailedToCreateSocket} then []
                else [env_socket env]))
     \<and> (error (gst_srt_client_connect_full env a) = None \<longrightarrow>
           (\<exists>h sa. arg_host a = Some h \<and> env_parse_address env h (arg_port a) = Some sa
              \<and> env_epoll_create env \<noteq> -1 \<and> env_to_native env sa
              \<and> env_socket env \<noteq> SRT_ERROR
              \<and> (arg_bind_address a \<noteq> None \<or> arg_bind_port a \<noteq> 0 \<or> arg_rendezvous a \<longrightarrow>
                   (\<exists>bsa. env_parse_address env
                             (case arg_bind_address a of None \<Rightarrow> ''0.0.0.0'' | Some b \<Rightarrow> b)
                             (if arg_rendezvous a then arg_port a else arg_bind_port a) = Some bsa
                          \<and> env_to_native env bsa)
                   \<and> env_bind env \<noteq> SRT_ERROR)
              \<and> env_connect env \<noteq> SRT_ERROR \<and> env_sockstate env = SRTS_CONNECTED))"
proof (intro conjI allI impI)
  show "(error (gst_srt_client_connect_full env a) = None)
      = (ret (gst_srt_client_connect_full env a) \<noteq> SRT_INVALID_SOCK)"
    by (rule connect_full_ret)
next
  assume "error (gst_srt_client_connect_full env a) = None"
  then show "\<exists>h sa. arg_host a = Some h \<and> env_parse_address env h (arg_port a) = Some sa
      \<and> env_epoll_create env \<noteq> -1 \<and> env_to_native env sa
      \<and> env_socket env \<noteq> SRT_ERROR
      \<and> (arg_bind_address a \<noteq> None \<or> arg_bind_port a \<noteq> 0 \<or> arg_rendezvous a \<longrightarrow>
           (\<exists>bsa. env_parse_address env
                     (case arg_bind_address a of None \<Rightarrow> ''0.0.0.0'' | Some b \<Rightarrow> b)
                     (if arg_rendezvous a then arg_port a else arg_bind_port a) = Some bsa
                  \<and> env_to_native env bsa)
           \<and> env_bind env \<noteq> SRT_ERROR)
      \<and> env_connect env \<noteq> SRT_ERROR \<and> env_sockstate env = SRTS_CONNECTED"
    by (rule connect_full_success_only_if)
qed (use connect_full_rollback [OF assms] in blast)+

theorem connect_helper_rollback_witness:
  "ret (gst_srt_client_connect_full
      \<lparr>env_parse_address = (\<lambda>h p. Some 1), env_to_native = (\<lambda>sa. True),
        env_epoll_create = 4, env_socket = 7, env_bind = 0, env_connect = -1,
        env_sockstate = SRTS_CONNECTED\<rparr>
      \<lparr>arg_is_sender = True, arg_host = Some ''10.0.0.1'', arg_port = 7001,
        arg_rendezvous = False, arg_bind_address = None, arg_bind_port = 0, arg_latency = 125,
        arg_poll_id = -1, arg_passphrase = None, arg_key_length = 16\<rparr>) = SRT_INVALID_SOCK
   \<and> released_polls (calls (gst_srt_client_connect_full
      \<lparr>env_parse_address = (\<lambda>h p. Some 1), env_to_native = (\<lambda>sa. True),
        env_epoll_create = 4, env_socket = 7, env_bind = 0, env_connect = -1,
        env_sockstate = SRTS_CONNECTED\<rparr>
      \<lparr>arg_is_sender = True, arg_host = Some ''10.0.0.1'', arg_port = 7001,
        arg_rendezvous = False, arg_bind_address = None, arg_bind_port = 0, arg_latency = 125,
        arg_poll_id = -1, arg_passphrase = None, arg_key_length = 16\<rparr>)) = [4]
   \<and> closed_socks (calls (gst_srt_client_connect_full
      \<lparr>env_parse_address = (\<lambda>h p. Some 1), env_to_native = (\<lambda>sa. True),
        env_epoll_create = 4, env_socket = 7, env_bind = 0, env_connect = -1,
        env_sockstate = SRTS_CONNECTED\<rparr>
      \<lparr>arg_is_sender = True, arg_host = Some ''10.0.0.1'', arg_port = 7001,
        arg_rendezvous = False, arg_bind_address = None, arg_bind_port = 0, arg_latency = 125,
        arg_poll_id = -1, arg_passphrase = None, arg_key_length = 16\<rparr>)) = [7]"
  using connect_helper_rollback [of
      "\<lparr>arg_is_sender = True, arg_host = Some ''10.0.0.1'', arg_port = 7001,
        arg_rendezvous = False, arg_bind_address = None, arg_bind_port = 0, arg_latency = 125,
        arg_poll_id = -1, arg_passphrase = None, arg_key_length = 16\<rparr>"
      "\<lparr>env_parse_address = (\<lambda>h p. Some 1), env_to_native = (\<lambda>sa. True),
        env_epoll_create = 4, env_socket = 7, env_bind = 0, env_connect = -1,
        env_sockstate = SRTS_CONNECTED\<rparr>"]
  by (simp add: gst_srt_client_connect_full_def bind_and_connect_def connect_and_register_def
      failed_def socket_options_def Let_def SRT_ERROR_def SRT_INVALID_SOCK_def)

text \<open>
  C5, as the helper is written. The options the helper sets on a socket it has created
  are those of \<open>socket_options\<close>, each option once: TSBPD mode 1, linger 0, the sender flag
  of the role, the latency on the peer latency for a sender and on the receive latency for
  a receiver (and not on the other one), the rendezvous flag, and the passphrase with the
  key length exactly when the passphrase is neither \<^verbatim>\<open>NULL\<close> nor empty. The send mode
  (\<^verbatim>\<open>SRTO_SNDSYN\<close>) is not among them: the helper leaves the socket in the library's
  default send mode.
\<close>

theorem socket_option_profile:
  "(created_socks (calls (gst_srt_client_connect_full env a)) \<noteq> [] \<longrightarrow>
      options_set (calls (gst_srt_client_connect_full env a))
        = socket_options (arg_is_sender a) (arg_latency a) (arg_rendezvous a)
            (arg_passphrase a) (arg_key_length a))
   \<and> distinct (map fst (socket_options s l r p k))
   \<and> (SRTO_TSBPDMODE, IntVal 1) \<in> set (socket_options s l r p k)
   \<and> (SRTO_LINGER, IntVal 0) \<in> set (socket_options s l r p k)
   \<and> (SRTO_SENDER, IntVal (if s then 1 else 0)) \<in> set (socket_options s l r p k)
   \<and> (s \<longrightarrow> (SRTO_PEERLATENCY, IntVal l) \<in> set (socket_options s l r p k)
          \<and> SRTO_RCVLATENCY \<notin> set (map fst (socket_options s l r p k)))
   \<and> (\<not> s \<longrightarrow> (SRTO_RCVLATENCY, IntVal l) \<in> set (socket_options s l r p k)
          \<and> SRTO_PEERLATENCY \<notin> set (map fst (socket_options s l r p k)))
   \<and> (SRTO_RENDEZVOUS, IntVal (if r then 1 else 0)) \<in> set (socket_options s l r p k)
   \<and> (SRTO_PASSPHRASE \<in> set (map fst (socket_options s l r p k))) = (\<exists>pw. p = Some pw \<and> pw \<noteq> [])
   \<and> (SRTO_PBKEYLEN \<in> set (map fst (socket_options s l r p k))) = (\<exists>pw. p = Some pw \<and> pw \<noteq> [])
   \<and> (\<forall>pw. p = Some pw \<and> pw \<noteq> [] \<longrightarrow>
          (SRTO_PASSPHRASE, StrVal pw) \<in> set (socket_options s l r p k)
        \<and> (SRTO_PBKEYLEN, IntVal k) \<in> set (socket_options s l r p k))
   \<and> SRTO_SNDSYN \<notin> set (map fst (socket_options s l r p k))"
  using connect_full_options [of env a]
    socket_options_members [where s = s and l = l and r = r and p = p and k = k]
    socket_options_passphrase [where s = s and l = l and r = r and p = p and k = k]
  by blast

theorem socket_option_profile_witness:
  "options_set (calls (gst_srt_client_connect_full
      \<lparr>env_parse_address = (\<lambda>h p. Some 1), env_to_native = (\<lambda>sa. True),
        env_epoll_create = 4, env_socket = 7, env_bind = 0, env_connect = 0,
        env_sockstate = SRTS_CONNECTED\<rparr>
      \<lparr>arg_is_sender = True, arg_host = Some ''10.0.0.1'', arg_port = 7001,
        arg_rendezvous = False, arg_bind_address = None, arg_bind_port = 0, arg_latency = 125,
        arg_poll_id = -1, arg_passphrase = Some ''secret'', arg_key_length = 16\<rparr>))
     = [(SRTO_TSBPDMODE, IntVal 1), (SRTO_LINGER, IntVal 0), (SRTO_SENDER, IntVal 1),
        (SRTO_PEERLATENCY, IntVal 125), (SRTO_RENDEZVOUS, IntVal 0),
        (SRTO_PASSPHRASE, StrVal ''secret''), (SRTO_PBKEYLEN, IntVal 16)]
   \<and> (SRTO_PEERLATENCY, IntVal 125) \<in> set (socket_options True 125 False (Some ''secret'') 16)
   \<and> (SRTO_RCVLATENCY, IntVal 125) \<in> set (socket_options False 125 False (Some ''secret'') 16)
   \<and> (SRTO_PBKEYLEN, IntVal 16) \<in> set (socket_options True 125 False (Some ''secret'') 16)"
  using socket_option_profile [where env = "\<lparr>env_parse_address = (\<lambda>h p. Some 1), env_to_native = (\<lambda>sa. True),
        env_epoll_create = 4, env_socket = 7, env_bind = 0, env_connect = 0,
        env_sockstate = SRTS_CONNECTED\<rparr>"
      and a = "\<lparr>arg_is_sender = True, arg_host = Some ''10.0.0.1'', arg_port = 7001,
        arg_rendezvous = False, arg_bind_address = None, arg_bind_port = 0, arg_latency = 125,
        arg_poll_id = -1, arg_passphrase = Some ''secret'', arg_key_length = 16\<rparr>"
      and s = True and l = 125 and r = False and p = "Some ''secret''" and k = 16]
    socket_option_profile [where env = "\<lparr>env_parse_address = (\<lambda>h p. Some 1), env_to_native = (\<lambda>sa. True),
        env_epoll_create = 4, env_socket = 7, env_bind = 0, env_connect = 0,
        env_sockstate = SRTS_CONNECTED\<rparr>"
      and a = "\<lparr>arg_is_sender = True, arg_host = Some ''10.0.0.1'', arg_port = 7001,
        arg_rendezvous = False, arg_bind_address = None, arg_bind_port = 0, arg_latency = 125,
        arg_poll_id = -1, arg_passphrase = Some ''secret'', arg_key_length = 16\<rparr>"
      and s = False and l = 125 and r = False and p = "Some ''secret''" and k = 16]
  by (simp add: gst_srt_client_connect_full_def bind_and_connect_def connect_and_register_def
      failed_def socket_options_def Let_def SRT_ERROR_def SRT_INVALID_SOCK_def)

text \<open>
  C5 as the specification states it asks for the non-blocking send mode among the
  options. A sender's connect that succeeds sets no send mode at all.
\<close>

theorem socket_option_profile_counterexample:
  "error (gst_srt_client_connect_full
      \<lparr>env_parse_address = (\<lambda>h p. Some 1), env_to_native = (\<lambda>sa. True),
        env_epoll_create = 4, env_socket = 7, env_bind = 0, env_connect = 0,
        env_sockstate = SRTS_CONNECTED\<rparr>
      \<lparr>arg_is_sender = True, arg_host = Some ''10.0.0.1'', arg_port = 7001,
        arg_rendezvous = False, arg_bind_address = None, arg_bind_port = 0, arg_latency = 125,
        arg_poll_id = -1, arg_passphrase = None, arg_key_length = 16\<rparr>) = None
   \<and> SRTO_SNDSYN \<notin> set (map fst (options_set (calls (gst_srt_client_connect_full
      \<lparr>env_parse_address = (\<lambda>h p. Some 1), env_to_native = (\<lambda>sa. True),
        env_epoll_create = 4, env_socket = 7, env_bind = 0, env_connect = 0,
        env_sockstate = SRTS_CONNECTED\<rparr>
      \<lparr>arg_is_sender = True, arg_host = Some ''10.0.0.1'', arg_port = 7001,
        arg_rendezvous = False, arg_bind_address = None, arg_bind_port = 0, arg_latency = 125,
        arg_poll_id = -1, arg_passphrase = None, arg_key_length = 16\<rparr>))))"
  by (simp add: gst_srt_client_connect_full_def bind_and_connect_def connect_and_register_def
      failed_def socket_options_def Let_def SRT_ERROR_def SRT_INVALID_SOCK_def)

end
